theory Spec2Isabelle
  imports Main "HOL-Library.AList" "HOL-Library.Char_ord" "HOL-Library.List_Lexorder"
    "HOL-Library.Multiset" "HOL-Library.Sublist"
begin

section \<open>The job manager of \<open>src/jobs/manager.py\<close>\<close>

text \<open>
  The development follows \<open>JobManager\<close>: the durable store is the content of
  \<open>jobs_dir\<close> (one directory per job holding \<open>metadata.json\<close>, \<open>job.log\<close> and
  \<open>results/\<close>), the live process table is \<open>_running_jobs\<close>, and the body of the
  background thread \<open>run_job\<close> is cut into steps, so that calls of the public methods
  can be placed between them. A record is the JSON document that \<open>json.load\<close> returns,
  and it is read with the item access and the \<open>get\<close> method of Python, which raise
  where the document is not what the manager wrote. Writing a record is two steps: the
  file is opened for writing, which empties it, and then the document is written. What
  the environment decides (the UUID drawn, the clock, the exit code of the worker, whether
  a file parses) is an argument.
\<close>

subsection \<open>Python values and strings\<close>

text \<open>Values of the \<open>args\<close> dictionary, and \<open>str(value)\<close> on them.\<close>

datatype pyval = PNone | PStr string | PInt int | PBool bool

definition digit_char :: "nat \<Rightarrow> char" where
  "digit_char d = char_of (48 + d)"

fun str_nat :: "nat \<Rightarrow> string" where
  "str_nat n = (if n < 10 then [digit_char n] else str_nat (n div 10) @ [digit_char (n mod 10)])"

declare str_nat.simps [simp del]

definition str_int :: "int \<Rightarrow> string" where
  "str_int i = (if i < 0 then CHR ''-'' # str_nat (nat (- i)) else str_nat (nat i))"

fun py_str :: "pyval \<Rightarrow> string" where
  "py_str PNone = ''None''"
| "py_str (PStr s) = s"
| "py_str (PInt i) = str_int i"
| "py_str (PBool b) = (if b then ''True'' else ''False'')"

text \<open>\<open>xs[i:]\<close>: a negative start counts from the end and is clamped at the front.\<close>

definition py_slice_from :: "'a list \<Rightarrow> int \<Rightarrow> 'a list" where
  "py_slice_from xs i =
     (if i < 0 then drop (nat (max 0 (int (length xs) + i))) xs else drop (nat i) xs)"

text \<open>\<open>str(a / b)\<close> for a path \<open>a\<close> and a relative name \<open>b\<close>.\<close>

definition path_join :: "string \<Rightarrow> string \<Rightarrow> string" where
  "path_join a b = (if a = ''/'' then a @ b else a @ ''/'' @ b)"

subsection \<open>Timestamps: \<open>datetime.now().isoformat()\<close>\<close>

record datetime =
  year :: nat
  month :: nat
  day :: nat
  hour :: nat
  minute :: nat
  second :: nat
  microsecond :: nat

text \<open>The ranges a \<open>datetime\<close> object keeps (\<open>MINYEAR = 1\<close>, \<open>MAXYEAR = 9999\<close>).\<close>

definition valid_datetime :: "datetime \<Rightarrow> bool" where
  "valid_datetime d \<longleftrightarrow>
     1 \<le> year d \<and> year d \<le> 9999 \<and> 1 \<le> month d \<and> month d \<le> 12 \<and>
     1 \<le> day d \<and> day d \<le> 31 \<and> hour d < 24 \<and> minute d < 60 \<and> second d < 60 \<and>
     microsecond d < 1000000"

text \<open>\<open>"%0wd" % n\<close>: padded with zeros to width \<open>w\<close>, never truncated.\<close>

definition zero_pad :: "nat \<Rightarrow> nat \<Rightarrow> string" where
  "zero_pad w n = replicate (w - length (str_nat n)) CHR ''0'' @ str_nat n"

text \<open>
  A naive datetime prints as \<open>YYYY-MM-DDTHH:MM:SS\<close>, followed by \<open>.ffffff\<close> only when the
  microsecond field is not zero.
\<close>

definition isoformat :: "datetime \<Rightarrow> string" where
  "isoformat d =
     zero_pad 4 (year d) @ ''-'' @ zero_pad 2 (month d) @ ''-'' @ zero_pad 2 (day d) @ ''T'' @
     zero_pad 2 (hour d) @ '':'' @ zero_pad 2 (minute d) @ '':'' @ zero_pad 2 (second d) @
     (if microsecond d = 0 then [] else ''.'' @ zero_pad 6 (microsecond d))"

text \<open>Chronological order of two datetimes: field by field, most significant first.\<close>

definition dt_fields :: "datetime \<Rightarrow> nat list" where
  "dt_fields d = [year d, month d, day d, hour d, minute d, second d, microsecond d]"

fun fields_before :: "nat list \<Rightarrow> nat list \<Rightarrow> bool" where
  "fields_before (x # xs) (y # ys) = (x < y \<or> (x = y \<and> fields_before xs ys))"
| "fields_before _ _ = False"

definition dt_before :: "datetime \<Rightarrow> datetime \<Rightarrow> bool" where
  "dt_before d1 d2 = fields_before (dt_fields d1) (dt_fields d2)"

subsection \<open>JSON documents and Python's access to them\<close>

text \<open>
  The value \<open>json.load\<close> returns: \<open>JNull\<close> is \<open>None\<close>, \<open>JObj\<close> a \<open>dict\<close> with
  its items in insertion order, \<open>JArr\<close> a \<open>list\<close>. Numbers are integers.
\<close>

datatype json = JNull | JBool bool | JNum int | JStr string | JArr "json list"
  | JObj "(string \<times> json) list"

type_synonym pydict = "(string \<times> json) list"

datatype py_exception =
    TypeError string
  | KeyError string
  | AttributeError string
  | FileExistsError string
  | UnicodeDecodeError string
  | RecursionError string

definition apostrophe :: string where
  "apostrophe = [CHR 0x27]"

fun type_name :: "json \<Rightarrow> string" where
  "type_name JNull = ''NoneType''"
| "type_name (JBool b) = ''bool''"
| "type_name (JNum n) = ''int''"
| "type_name (JStr s) = ''str''"
| "type_name (JArr xs) = ''list''"
| "type_name (JObj kvs) = ''dict''"

text \<open>\<open>bool(v)\<close>, as in \<open>if not metadata\<close>.\<close>

fun truthy :: "json \<Rightarrow> bool" where
  "truthy JNull = False"
| "truthy (JBool b) = b"
| "truthy (JNum n) = (n \<noteq> 0)"
| "truthy (JStr s) = (s \<noteq> [])"
| "truthy (JArr xs) = (xs \<noteq> [])"
| "truthy (JObj kvs) = (kvs \<noteq> [])"

text \<open>\<open>d.get(k)\<close> on a dict: the value, or \<open>None\<close> for a missing key.\<close>

definition dict_get :: "pydict \<Rightarrow> string \<Rightarrow> json" where
  "dict_get kvs k = (case map_of kvs k of Some v \<Rightarrow> v | None \<Rightarrow> JNull)"

text \<open>\<open>d[k] = v\<close> on a dict: an existing key keeps its place, a new one goes last.\<close>

definition dict_set :: "pydict \<Rightarrow> string \<Rightarrow> json \<Rightarrow> pydict" where
  "dict_set kvs k v = AList.update k v kvs"

text \<open>\<open>v[k]\<close> with a string \<open>k\<close>.\<close>

fun getitem :: "json \<Rightarrow> string \<Rightarrow> py_exception + json" where
  "getitem (JObj kvs) k =
     (case map_of kvs k of
        Some v \<Rightarrow> Inr v
      | None \<Rightarrow> Inl (KeyError (apostrophe @ k @ apostrophe)))"
| "getitem (JArr xs) k = Inl (TypeError ''list indices must be integers or slices, not str'')"
| "getitem (JStr s) k =
     Inl (TypeError (''string indices must be integers, not '' @ apostrophe @ ''str'' @ apostrophe))"
| "getitem v k =
     Inl (TypeError (apostrophe @ type_name v @ apostrophe @ '' object is not subscriptable''))"

text \<open>\<open>v[k] = x\<close> with a string \<open>k\<close>; the result is the dict after the assignment.\<close>

fun setitem :: "json \<Rightarrow> string \<Rightarrow> json \<Rightarrow> py_exception + pydict" where
  "setitem (JObj kvs) k x = Inr (dict_set kvs k x)"
| "setitem (JArr xs) k x = Inl (TypeError ''list indices must be integers or slices, not str'')"
| "setitem v k x =
     Inl (TypeError (apostrophe @ type_name v @ apostrophe @
                     '' object does not support item assignment''))"

text \<open>\<open>v.get(k)\<close>.\<close>

fun get_method :: "json \<Rightarrow> string \<Rightarrow> py_exception + json" where
  "get_method (JObj kvs) k = Inr (dict_get kvs k)"
| "get_method v k =
     Inl (AttributeError (apostrophe @ type_name v @ apostrophe @ '' object has no attribute '' @
                          apostrophe @ ''get'' @ apostrophe))"

text \<open>What \<open>metadata["status"] = ...\<close> raises when \<open>metadata\<close> is \<open>None\<close>.\<close>

definition none_item_assignment :: py_exception where
  "none_item_assignment =
     TypeError (apostrophe @ ''NoneType'' @ apostrophe @ '' object does not support item assignment'')"

subsection \<open>The job record and the job directory\<close>

text \<open>\<open>JobStatus\<close>: the record stores the \<open>value\<close> string of each member.\<close>

datatype JobStatus = PENDING | RUNNING | COMPLETED | FAILED | CANCELLED

fun status_value :: "JobStatus \<Rightarrow> string" where
  "status_value PENDING = ''pending''"
| "status_value RUNNING = ''running''"
| "status_value COMPLETED = ''completed''"
| "status_value FAILED = ''failed''"
| "status_value CANCELLED = ''cancelled''"

type_synonym job_id = string

type_synonym args = "(string \<times> pyval) list"

fun json_of :: "pyval \<Rightarrow> json" where
  "json_of PNone = JNull"
| "json_of (PStr s) = JStr s"
| "json_of (PInt i) = JNum i"
| "json_of (PBool b) = JBool b"

text \<open>
  \<open>metadata.json\<close> as \<open>_load_metadata\<close> meets it: no file; a file for which reading
  or \<open>json.load\<close> raises \<open>JSONDecodeError\<close> or \<open>IOError\<close> (an empty or half-written
  file is one); a file for which they raise another exception (\<open>UnicodeDecodeError\<close> for
  bytes that are not UTF-8, \<open>RecursionError\<close> for a document nested too deeply); or a file
  that parses, to any document.
\<close>

datatype meta_file = NoMeta | Unparsable | LoadRaises py_exception | Parsed json

datatype log_file = NoLog | LogUnreadable string | LogLines "string list"

text \<open>
  A file of the results directory when it is opened and given to \<open>json.load\<close>: it parses,
  raises \<open>JSONDecodeError\<close>, or raises another exception (with its text).
\<close>

datatype result_file = Parses json | DecodeError string | ReadError string

text \<open>\<open>results/\<close>: absent (or not a directory), or its entries in the order \<open>glob\<close> yields.\<close>

datatype results_dir = NoResults | Results "(string \<times> result_file) list"

record job_dir =
  meta :: meta_file
  log :: log_file
  results :: results_dir

datatype entry = PlainFile | JobDir job_dir

definition empty_dir :: job_dir where
  "empty_dir = \<lparr>meta = NoMeta, log = NoLog, results = NoResults\<rparr>"

subsection \<open>The manager's state\<close>

text \<open>
  \<open>jobs_path\<close> is \<open>str(self.jobs_dir)\<close>; \<open>jobs_dir\<close> lists its entries in the order
  \<open>iterdir\<close> yields them; \<open>running_jobs\<close> is \<open>_running_jobs\<close> (a process is named by
  its pid); \<open>terminated\<close> records the \<open>terminate()\<close> calls made so far; \<open>spawned\<close>
  records the supervisor threads started, with the arguments each closed over.
  A job id is taken as the name of an entry of the jobs directory, which is what the ids
  issued by \<open>submit_job\<close> are; two spellings of one path are two names here.
\<close>

record manager =
  jobs_path :: string
  jobs_dir :: "(string \<times> entry) list"
  running_jobs :: "job_id \<rightharpoonup> nat"
  terminated :: "nat list"
  spawned :: "(job_id \<times> string \<times> args) list"

definition lookup_dir :: "manager \<Rightarrow> job_id \<Rightarrow> job_dir option" where
  "lookup_dir st j = (case map_of (jobs_dir st) j of Some (JobDir d) \<Rightarrow> Some d | _ \<Rightarrow> None)"

text \<open>
  \<open>_load_metadata\<close>: \<open>None\<close> when the file is absent and when \<open>JSONDecodeError\<close> or
  \<open>IOError\<close> is caught; any other exception leaves the method; otherwise the document.
\<close>

definition load_metadata :: "manager \<Rightarrow> job_id \<Rightarrow> py_exception + json" where
  "load_metadata st j =
     (case lookup_dir st j of
        None \<Rightarrow> Inr JNull
      | Some d \<Rightarrow>
          (case meta d of
             NoMeta \<Rightarrow> Inr JNull
           | Unparsable \<Rightarrow> Inr JNull
           | LoadRaises e \<Rightarrow> Inl e
           | Parsed v \<Rightarrow> Inr v))"

text \<open>
  \<open>mkdir(parents=True, exist_ok=True)\<close> on the job directory: raises when the path is a
  plain file, keeps an existing directory, creates an empty one otherwise.
\<close>

definition mkdir_job :: "manager \<Rightarrow> job_id \<Rightarrow> py_exception + manager" where
  "mkdir_job st j =
     (case map_of (jobs_dir st) j of
        Some PlainFile \<Rightarrow> Inl (FileExistsError (path_join (jobs_path st) j))
      | Some (JobDir d) \<Rightarrow> Inr st
      | None \<Rightarrow> Inr (st\<lparr>jobs_dir := jobs_dir st @ [(j, JobDir empty_dir)]\<rparr>))"

definition put_meta :: "manager \<Rightarrow> job_id \<Rightarrow> meta_file \<Rightarrow> manager" where
  "put_meta st j f =
     (case lookup_dir st j of
        Some d \<Rightarrow> st\<lparr>jobs_dir := AList.update j (JobDir (d\<lparr>meta := f\<rparr>)) (jobs_dir st)\<rparr>
      | None \<Rightarrow> st)"

text \<open>
  \<open>_save_metadata\<close> in its two steps. First the directory is created if needed and
  \<open>open(meta_file, 'w')\<close> empties the file: until the second step a reader finds a file
  that \<open>json.load\<close> rejects. Then \<open>json.dump\<close> writes the document.
\<close>

definition open_metadata :: "manager \<Rightarrow> job_id \<Rightarrow> py_exception + manager" where
  "open_metadata st j =
     (case mkdir_job st j of
        Inl e \<Rightarrow> Inl e
      | Inr st' \<Rightarrow> Inr (put_meta st' j Unparsable))"

definition dump_metadata :: "manager \<Rightarrow> job_id \<Rightarrow> pydict \<Rightarrow> manager" where
  "dump_metadata st j m = put_meta st j (Parsed (JObj m))"

definition save_metadata :: "manager \<Rightarrow> job_id \<Rightarrow> pydict \<Rightarrow> py_exception + manager" where
  "save_metadata st j m =
     (case open_metadata st j of
        Inl e \<Rightarrow> Inl e
      | Inr st' \<Rightarrow> Inr (dump_metadata st' j m))"

subsection \<open>Responses\<close>

text \<open>The dictionary \<open>get_job_status\<close> returns; \<open>sv_error\<close> is there for a failed job.\<close>

record status_view =
  sv_job_id :: job_id
  sv_job_name :: json
  sv_status :: json
  sv_submitted_at :: json
  sv_started_at :: json
  sv_completed_at :: json
  sv_error :: "json option"

record job_view =
  jv_job_id :: json
  jv_job_name :: json
  jv_status :: json
  jv_submitted_at :: json

text \<open>
  The dictionaries the public methods return. \<open>ErrorResp msg\<close> is
  \<open>{"status": "error", "error": msg}\<close>, and \<open>NotCompletedResp s\<close> is that dictionary
  with the message \<open>f"Job not completed. Current status: {s}"\<close>; the others are the
  successful answers of \<open>submit_job\<close> (job id, message), \<open>get_job_status\<close>,
  \<open>get_job_result\<close> (output directory, result files, data), \<open>get_job_log\<close> (job id,
  lines, total), \<open>cancel_job\<close> (message) and \<open>list_jobs\<close> (jobs, total).
\<close>

datatype response =
    Submitted job_id string
  | ErrorResp string
  | NotCompletedResp json
  | StatusResp status_view
  | ResultResp string "string list" "(string \<times> json) list"
  | LogResp job_id "string list" nat
  | CancelResp string
  | ListResp "job_view list" nat

fun is_error :: "response \<Rightarrow> bool" where
  "is_error (ErrorResp msg) = True"
| "is_error (NotCompletedResp s) = True"
| "is_error r = False"

subsection \<open>\<open>submit_job\<close>\<close>

text \<open>The record \<open>submit_job\<close> builds.\<close>

definition new_record ::
  "job_id \<Rightarrow> string option \<Rightarrow> string \<Rightarrow> args \<Rightarrow> datetime \<Rightarrow> pydict" where
  "new_record jid name script_path as now =
     [(''job_id'', JStr jid),
      (''job_name'', JStr (case name of
                            None \<Rightarrow> ''job_'' @ jid
                          | Some n \<Rightarrow> if n = [] then ''job_'' @ jid else n)),
      (''script'', JStr script_path),
      (''args'', JObj (map (\<lambda>(k, v). (k, json_of v)) as)),
      (''status'', JStr (status_value PENDING)),
      (''submitted_at'', JStr (isoformat now)),
      (''started_at'', JNull),
      (''completed_at'', JNull),
      (''error'', JNull)]"

text \<open>
  \<open>uuid\<close> is \<open>str(uuid.uuid4())\<close>, \<open>now\<close> the clock read for \<open>submitted_at\<close>. The
  supervisor thread is started (entered in \<open>spawned\<close>) before the method returns.
\<close>

definition submit_job ::
  "manager \<Rightarrow> string \<Rightarrow> string \<Rightarrow> args \<Rightarrow> string option \<Rightarrow> datetime
     \<Rightarrow> manager \<times> (py_exception + response)" where
  "submit_job st uuid script_path as name now =
     (let jid = take 8 uuid in
      case mkdir_job st jid of
        Inl e \<Rightarrow> (st, Inl e)
      | Inr st1 \<Rightarrow>
          (case save_metadata st1 jid (new_record jid name script_path as now) of
             Inl e \<Rightarrow> (st1, Inl e)
           | Inr st2 \<Rightarrow>
               (st2\<lparr>spawned := spawned st2 @ [(jid, script_path, as)]\<rparr>,
                Inr (Submitted jid
                       (''Job submitted. Use get_job_status('' @ apostrophe @ jid @
                        apostrophe @ '') to check progress.'')))))"

subsection \<open>The supervisor thread \<open>run_job\<close>\<close>

text \<open>
  Lines 76 to 79 up to the point where \<open>_save_metadata\<close> has opened the file: the record
  is loaded, marked running on the thread's own copy, and \<open>metadata.json\<close> is emptied.
  The result is the thread's copy.
\<close>

definition run_job_begin_open ::
  "manager \<Rightarrow> job_id \<Rightarrow> datetime \<Rightarrow> manager \<times> (py_exception + pydict)" where
  "run_job_begin_open st jid now =
     (case load_metadata st jid of
        Inl e \<Rightarrow> (st, Inl e)
      | Inr md \<Rightarrow>
          (case setitem md ''status'' (JStr (status_value RUNNING)) of
             Inl e \<Rightarrow> (st, Inl e)
           | Inr m1 \<Rightarrow>
               (let m2 = dict_set m1 ''started_at'' (JStr (isoformat now))
                in case open_metadata st jid of
                     Inl e \<Rightarrow> (st, Inl e)
                   | Inr st' \<Rightarrow> (st', Inr m2))))"

text \<open>The rest of line 79: the thread's copy is written.\<close>

definition run_job_begin_write :: "manager \<Rightarrow> job_id \<Rightarrow> pydict \<Rightarrow> manager" where
  "run_job_begin_write st jid m = dump_metadata st jid m"

text \<open>Lines 76 to 79 with nothing in between.\<close>

definition run_job_begin ::
  "manager \<Rightarrow> job_id \<Rightarrow> datetime \<Rightarrow> manager \<times> (py_exception + pydict)" where
  "run_job_begin st jid now =
     (case run_job_begin_open st jid now of
        (st', Inl e) \<Rightarrow> (st', Inl e)
      | (st', Inr m) \<Rightarrow> (run_job_begin_write st' jid m, Inr m))"

text \<open>The command line: every argument that is not \<open>None\<close> adds two tokens.\<close>

fun extend_args :: "string list \<Rightarrow> args \<Rightarrow> string list" where
  "extend_args cmd [] = cmd"
| "extend_args cmd ((key, v) # rest) =
     extend_args (if v \<noteq> PNone then cmd @ [''--'' @ key, py_str v] else cmd) rest"

definition build_command :: "string \<Rightarrow> args \<Rightarrow> string \<Rightarrow> string list" where
  "build_command script_path as job_dir_path =
     extend_args [''mamba'', ''run'', ''-p'', ''./env_esmfold'', ''python'', script_path] as
       @ [''--output'', path_join job_dir_path ''results'']"

definition set_log :: "manager \<Rightarrow> job_id \<Rightarrow> log_file \<Rightarrow> manager" where
  "set_log st jid l =
     (case lookup_dir st jid of
        Some d \<Rightarrow> st\<lparr>jobs_dir := AList.update jid (JobDir (d\<lparr>log := l\<rparr>)) (jobs_dir st)\<rparr>
      | None \<Rightarrow> st)"

text \<open>
  Lines 93 to 101: the log file is opened for writing (created or truncated) and the
  process is started and entered in the table. \<open>popen\<close> is what \<open>subprocess.Popen\<close>
  does: it raises (with the text given) or returns the new process. The result is the
  text of the exception raised, if any: opening the log raises when the job directory is
  missing or is a plain file.
\<close>

definition run_job_launch ::
  "manager \<Rightarrow> job_id \<Rightarrow> string + nat \<Rightarrow> manager \<times> string option" where
  "run_job_launch st jid popen =
     (case map_of (jobs_dir st) jid of
        None \<Rightarrow>
          (st, Some (''[Errno 2] No such file or directory: '' @ apostrophe @
                     path_join (path_join (jobs_path st) jid) ''job.log'' @ apostrophe))
      | Some PlainFile \<Rightarrow>
          (st, Some (''[Errno 20] Not a directory: '' @ apostrophe @
                     path_join (path_join (jobs_path st) jid) ''job.log'' @ apostrophe))
      | Some (JobDir d) \<Rightarrow>
          (let st1 = set_log st jid (LogLines [])
           in case popen of
                Inl e \<Rightarrow> (st1, Some e)
              | Inr pid \<Rightarrow> (st1\<lparr>running_jobs := (running_jobs st1)(jid \<mapsto> pid)\<rparr>, None)))"

text \<open>How the \<open>try\<close> block ends: the process exited with a code, or an exception.\<close>

datatype worker_outcome = Exited int | Raised string

text \<open>Lines 104 to 114, on the thread's own copy of the record.\<close>

definition classify :: "pydict \<Rightarrow> worker_outcome \<Rightarrow> pydict" where
  "classify m out =
     (case out of
        Exited c \<Rightarrow>
          if c = 0 then dict_set m ''status'' (JStr (status_value COMPLETED))
          else dict_set (dict_set m ''status'' (JStr (status_value FAILED)))
                 ''error'' (JStr (''Process exited with code '' @ str_int c))
      | Raised e \<Rightarrow>
          dict_set (dict_set m ''status'' (JStr (status_value FAILED))) ''error'' (JStr e))"

text \<open>
  Lines 116 to 119, the \<open>finally\<close> block: stamp, save, leave the table. The entry is
  popped only when the save did not raise. \<open>run_job_finish_open\<close> is the state while
  that save has opened the file and not yet written it.
\<close>

definition run_job_finish_open :: "manager \<Rightarrow> job_id \<Rightarrow> manager" where
  "run_job_finish_open st jid = (case open_metadata st jid of Inl e \<Rightarrow> st | Inr st' \<Rightarrow> st')"

definition run_job_finish ::
  "manager \<Rightarrow> job_id \<Rightarrow> pydict \<Rightarrow> worker_outcome \<Rightarrow> datetime
     \<Rightarrow> manager \<times> (py_exception + pydict)" where
  "run_job_finish st jid m out now =
     (let m' = dict_set (classify m out) ''completed_at'' (JStr (isoformat now))
      in case save_metadata st jid m' of
           Inl e \<Rightarrow> (st, Inl e)
         | Inr st' \<Rightarrow> (st'\<lparr>running_jobs := (running_jobs st')(jid := None)\<rparr>, Inr m'))"

subsection \<open>\<open>get_job_status\<close>\<close>

text \<open>Sequencing of steps that may raise: the first exception ends the computation.\<close>

definition and_then :: "py_exception + 'a \<Rightarrow> ('a \<Rightarrow> py_exception + 'b) \<Rightarrow> py_exception + 'b" where
  "and_then r f = (case r of Inl e \<Rightarrow> Inl e | Inr x \<Rightarrow> f x)"

definition get_job_status :: "manager \<Rightarrow> job_id \<Rightarrow> py_exception + response" where
  "get_job_status st jid =
     and_then (load_metadata st jid) (\<lambda>md.
       if \<not> truthy md then Inr (ErrorResp (''Job '' @ jid @ '' not found''))
       else
         and_then (get_method md ''job_name'') (\<lambda>name.
         and_then (getitem md ''status'') (\<lambda>s.
         and_then (get_method md ''submitted_at'') (\<lambda>submitted.
         and_then (get_method md ''started_at'') (\<lambda>started.
         and_then (get_method md ''completed_at'') (\<lambda>completed.
           if s = JStr (status_value FAILED)
           then and_then (get_method md ''error'') (\<lambda>err.
                  Inr (StatusResp
                         \<lparr>sv_job_id = jid, sv_job_name = name, sv_status = s,
                          sv_submitted_at = submitted, sv_started_at = started,
                          sv_completed_at = completed, sv_error = Some err\<rparr>))
           else Inr (StatusResp
                       \<lparr>sv_job_id = jid, sv_job_name = name, sv_status = s,
                        sv_submitted_at = submitted, sv_started_at = started,
                        sv_completed_at = completed, sv_error = None\<rparr>)))))))"

subsection \<open>\<open>get_job_result\<close>\<close>

text \<open>\<open>glob("*.json")\<close> keeps the names that end in \<open>.json\<close>.\<close>

definition matches_json :: "string \<Rightarrow> bool" where
  "matches_json name \<longleftrightarrow> 5 \<le> length name \<and> drop (length name - 5) name = ''.json''"

text \<open>
  \<open>Path.stem\<close>: the name up to its last dot, unless that dot is the first or the last
  character of the name (or there is none).
\<close>

definition path_stem :: "string \<Rightarrow> string" where
  "path_stem name =
     (let t = length (takeWhile (\<lambda>c. c \<noteq> CHR ''.'') (rev name))
      in if t < length name \<and> 0 < length name - 1 - t \<and> 0 < t
         then take (length name - 1 - t) name else name)"

text \<open>
  The loop over the result files: each parsed file is stored under its stem; the first
  file that fails ends the call with the message of the matching \<open>except\<close> clause.
\<close>

fun collect_results ::
  "(string \<times> json) list \<Rightarrow> (string \<times> result_file) list \<Rightarrow> string + (string \<times> json) list" where
  "collect_results acc [] = Inr acc"
| "collect_results acc ((name, f) # rest) =
     (case f of
        Parses v \<Rightarrow> collect_results (AList.update (path_stem name) v acc) rest
      | DecodeError e \<Rightarrow> Inl (''Failed to parse output JSON: '' @ e)
      | ReadError e \<Rightarrow> Inl (''Error reading results: '' @ e))"

definition get_job_result :: "manager \<Rightarrow> job_id \<Rightarrow> py_exception + response" where
  "get_job_result st jid =
     (case load_metadata st jid of
        Inl e \<Rightarrow> Inl e
      | Inr md \<Rightarrow>
          if \<not> truthy md then Inr (ErrorResp (''Job '' @ jid @ '' not found''))
          else
            (case getitem md ''status'' of
               Inl e \<Rightarrow> Inl e
             | Inr s \<Rightarrow>
                 if s \<noteq> JStr (status_value COMPLETED) then Inr (NotCompletedResp s)
                 else
                   (let results_path = path_join (path_join (jobs_path st) jid) ''results''
                    in case lookup_dir st jid of
                         None \<Rightarrow> Inr (ErrorResp ''Results directory not found'')
                       | Some d \<Rightarrow>
                           (case results d of
                              NoResults \<Rightarrow> Inr (ErrorResp ''Results directory not found'')
                            | Results files \<Rightarrow>
                                (let result_files = filter (\<lambda>(name, f). matches_json name) files
                                 in if result_files \<noteq> []
                                    then (case collect_results [] result_files of
                                            Inl msg \<Rightarrow> Inr (ErrorResp msg)
                                          | Inr data \<Rightarrow>
                                              Inr (ResultResp results_path
                                                     (map (\<lambda>(name, f). path_join results_path name)
                                                        result_files)
                                                     data))
                                    else Inr (ErrorResp
                                                ''No result files found in output directory''))))))"

subsection \<open>\<open>get_job_log\<close>\<close>

definition get_job_log :: "manager \<Rightarrow> job_id \<Rightarrow> int \<Rightarrow> py_exception + response" where
  "get_job_log st jid tail =
     (case (case lookup_dir st jid of None \<Rightarrow> NoLog | Some d \<Rightarrow> log d) of
        NoLog \<Rightarrow> Inr (ErrorResp (''Log not found for job '' @ jid))
      | LogUnreadable e \<Rightarrow> Inr (ErrorResp (''Failed to read log: '' @ e))
      | LogLines lines \<Rightarrow>
          Inr (LogResp jid
                 (if tail \<noteq> 0 then py_slice_from lines (- tail) else lines)
                 (length lines)))"

subsection \<open>\<open>cancel_job\<close>\<close>

definition cancel_job ::
  "manager \<Rightarrow> job_id \<Rightarrow> datetime \<Rightarrow> manager \<times> (py_exception + response)" where
  "cancel_job st jid now =
     (case running_jobs st jid of
        Some pid \<Rightarrow>
          (let st1 = st\<lparr>terminated := terminated st @ [pid]\<rparr>
           in case load_metadata st1 jid of
                Inl e \<Rightarrow> (st1, Inl e)
              | Inr md \<Rightarrow>
                  (case setitem md ''status'' (JStr (status_value CANCELLED)) of
                     Inl e \<Rightarrow> (st1, Inl e)
                   | Inr m1 \<Rightarrow>
                       (case save_metadata st1 jid
                               (dict_set m1 ''completed_at'' (JStr (isoformat now))) of
                          Inl e \<Rightarrow> (st1, Inl e)
                        | Inr st2 \<Rightarrow>
                            (st2, Inr (CancelResp (''Job '' @ jid @ '' cancelled''))))))
      | None \<Rightarrow> (st, Inr (ErrorResp (''Job '' @ jid @ '' not running''))))"

subsection \<open>\<open>list_jobs\<close>\<close>

text \<open>
  \<open>list.sort(key=..., reverse=True)\<close>: the list is reversed, sorted stably in ascending
  order and reversed again, so that elements with equal keys keep their order.
\<close>

definition sort_reverse :: "('a \<Rightarrow> 'k::linorder) \<Rightarrow> 'a list \<Rightarrow> 'a list" where
  "sort_reverse k xs = rev (sort_key k (rev xs))"

text \<open>\<open>status is None or metadata["status"] == status\<close>.\<close>

definition passes_filter :: "json \<Rightarrow> string option \<Rightarrow> py_exception + bool" where
  "passes_filter md flt =
     (case flt of
        None \<Rightarrow> Inr True
      | Some s \<Rightarrow> and_then (getitem md ''status'') (\<lambda>v. Inr (v = JStr s)))"

text \<open>The dictionary appended for a record.\<close>

definition view_of :: "json \<Rightarrow> py_exception + job_view" where
  "view_of md =
     and_then (getitem md ''job_id'') (\<lambda>jid.
     and_then (get_method md ''job_name'') (\<lambda>name.
     and_then (getitem md ''status'') (\<lambda>s.
     and_then (get_method md ''submitted_at'') (\<lambda>submitted.
       Inr \<lparr>jv_job_id = jid, jv_job_name = name, jv_status = s,
            jv_submitted_at = submitted\<rparr>))))"

text \<open>The loop over \<open>iterdir()\<close>, before the sort; an exception ends it.\<close>

fun scan_jobs ::
  "manager \<Rightarrow> string option \<Rightarrow> (string \<times> entry) list \<Rightarrow> py_exception + job_view list" where
  "scan_jobs st flt [] = Inr []"
| "scan_jobs st flt ((name, e) # rest) =
     (case e of
        PlainFile \<Rightarrow> scan_jobs st flt rest
      | JobDir d \<Rightarrow>
          and_then (load_metadata st name) (\<lambda>md.
            if \<not> truthy md then scan_jobs st flt rest
            else
              and_then (passes_filter md flt) (\<lambda>keep.
                if keep
                then and_then (view_of md) (\<lambda>v.
                       and_then (scan_jobs st flt rest) (\<lambda>vs. Inr (v # vs)))
                else scan_jobs st flt rest)))"

text \<open>
  The sort key \<open>x.get("submitted_at", "")\<close> is whatever the record holds. Strings are
  ordered as strings, integers and booleans as numbers; a list of at most one job is not
  compared at all; with other keys (\<open>None\<close> among them), or keys of both kinds, the
  comparison raises \<open>TypeError\<close>. Keys that are all lists are counted with the last
  case here, and the text of the exception is cut before the two type names, which depend
  on the pair the sort compares first.
\<close>

fun is_str :: "json \<Rightarrow> bool" where
  "is_str (JStr s) = True"
| "is_str v = False"

fun is_num :: "json \<Rightarrow> bool" where
  "is_num (JNum n) = True"
| "is_num (JBool b) = True"
| "is_num v = False"

fun str_of :: "json \<Rightarrow> string" where
  "str_of (JStr s) = s"
| "str_of v = []"

fun num_of :: "json \<Rightarrow> int" where
  "num_of (JNum n) = n"
| "num_of (JBool b) = (if b then 1 else 0)"
| "num_of v = 0"

definition sort_jobs :: "job_view list \<Rightarrow> py_exception + job_view list" where
  "sort_jobs jobs =
     (if length jobs \<le> 1 then Inr jobs
      else if list_all (\<lambda>v. is_str (jv_submitted_at v)) jobs
      then Inr (sort_reverse (\<lambda>v. str_of (jv_submitted_at v)) jobs)
      else if list_all (\<lambda>v. is_num (jv_submitted_at v)) jobs
      then Inr (sort_reverse (\<lambda>v. num_of (jv_submitted_at v)) jobs)
      else Inl (TypeError (apostrophe @ ''<'' @ apostrophe @ '' not supported between instances'')))"

definition list_jobs :: "manager \<Rightarrow> string option \<Rightarrow> py_exception + response" where
  "list_jobs st flt =
     and_then (scan_jobs st flt (jobs_dir st)) (\<lambda>jobs.
     and_then (sort_jobs jobs) (\<lambda>sorted. Inr (ListResp sorted (length sorted))))"

subsection \<open>Calls of the public methods\<close>

datatype call =
    Submit string string args "string option" datetime
  | Status job_id
  | Result job_id
  | Log job_id int
  | Cancel job_id datetime
  | ListJobs "string option"

fun perform :: "manager \<Rightarrow> call \<Rightarrow> manager \<times> (py_exception + response)" where
  "perform st (Submit uuid script_path as name now) = submit_job st uuid script_path as name now"
| "perform st (Status jid) = (st, get_job_status st jid)"
| "perform st (Result jid) = (st, get_job_result st jid)"
| "perform st (Log jid tail) = (st, get_job_log st jid tail)"
| "perform st (Cancel jid now) = cancel_job st jid now"
| "perform st (ListJobs flt) = (st, list_jobs st flt)"

subsection \<open>Interleavings\<close>

text \<open>
  What can happen next in a manager: a call of a public method, or a step of some job's
  supervisor thread (with the thread's own copy of the record, where it writes it). The
  first step of a thread is there whole (\<open>Begin\<close>) and in its two halves
  (\<open>BeginOpen\<close>, \<open>BeginWrite\<close>); \<open>FinishOpen\<close> is the first half of the last step.
  A public method runs whole, its own \<open>_save_metadata\<close> included.
\<close>

datatype event =
    Call call
  | Begin job_id datetime
  | BeginOpen job_id datetime
  | BeginWrite job_id pydict
  | Launch job_id "string + nat"
  | FinishOpen job_id
  | Finish job_id pydict worker_outcome datetime

fun step :: "manager \<Rightarrow> event \<Rightarrow> manager" where
  "step st (Call c) = fst (perform st c)"
| "step st (Begin jid now) = fst (run_job_begin st jid now)"
| "step st (BeginOpen jid now) = fst (run_job_begin_open st jid now)"
| "step st (BeginWrite jid m) = run_job_begin_write st jid m"
| "step st (Launch jid popen) = fst (run_job_launch st jid popen)"
| "step st (FinishOpen jid) = run_job_finish_open st jid"
| "step st (Finish jid m out now) = fst (run_job_finish st jid m out now)"

definition run_events :: "manager \<Rightarrow> event list \<Rightarrow> manager" where
  "run_events st evs = foldl step st evs"

text \<open>
  The events that belong to the supervision of job \<open>jid\<close>: the steps of a supervisor
  thread of \<open>jid\<close>, and a submission that is given the id \<open>jid\<close>.
\<close>

fun supervises :: "event \<Rightarrow> job_id \<Rightarrow> bool" where
  "supervises (Call (Submit uuid script_path as name now)) jid = (take 8 uuid = jid)"
| "supervises (Call c) jid = False"
| "supervises (Begin j now) jid = (j = jid)"
| "supervises (BeginOpen j now) jid = (j = jid)"
| "supervises (BeginWrite j m) jid = (j = jid)"
| "supervises (Launch j popen) jid = (j = jid)"
| "supervises (FinishOpen j) jid = (j = jid)"
| "supervises (Finish j m out now) jid = (j = jid)"


definition terminal :: "string \<Rightarrow> bool" where
  "terminal s \<longleftrightarrow>
     s = status_value COMPLETED \<or> s = status_value FAILED \<or> s = status_value CANCELLED"

subsection \<open>The listing in the words of its description\<close>

text \<open>
  The view of a record that is an object, and the records of the job directories that
  load to a non-empty object, in the order of the directory listing.
\<close>

definition record_view :: "pydict \<Rightarrow> job_view" where
  "record_view kvs =
     \<lparr>jv_job_id = dict_get kvs ''job_id'', jv_job_name = dict_get kvs ''job_name'',
      jv_status = dict_get kvs ''status'', jv_submitted_at = dict_get kvs ''submitted_at''\<rparr>"

fun loadable :: "manager \<Rightarrow> string \<times> entry \<Rightarrow> pydict option" where
  "loadable st (name, PlainFile) = None"
| "loadable st (name, JobDir d) =
     (case load_metadata st name of
        Inr (JObj kvs) \<Rightarrow> if kvs = [] then None else Some kvs
      | _ \<Rightarrow> None)"

definition listed_records :: "manager \<Rightarrow> pydict list" where
  "listed_records st = List.map_filter (loadable st) (jobs_dir st)"

text \<open>
  The store states in which every job directory either has no record to list (the loader
  returns \<open>None\<close>, or an empty document) or has a record that is an object with a
  \<open>job_id\<close>, a \<open>status\<close> and a string as \<open>submitted_at\<close>.
\<close>

fun regular_record :: "json \<Rightarrow> bool" where
  "regular_record (JObj kvs) =
     (kvs = [] \<or>
      (map_of kvs ''job_id'' \<noteq> None \<and> map_of kvs ''status'' \<noteq> None \<and>
       is_str (dict_get kvs ''submitted_at'')))"
| "regular_record v = (\<not> truthy v)"

fun regular_entry :: "manager \<Rightarrow> string \<times> entry \<Rightarrow> bool" where
  "regular_entry st (name, PlainFile) = True"
| "regular_entry st (name, JobDir d) =
     (case load_metadata st name of Inl e \<Rightarrow> False | Inr md \<Rightarrow> regular_record md)"

definition regular_store :: "manager \<Rightarrow> bool" where
  "regular_store st = list_all (regular_entry st) (jobs_dir st)"

subsection \<open>Example states\<close>

definition example_time :: "nat \<Rightarrow> datetime" where
  "example_time s = \<lparr>year = 2024, month = 5, day = 17, hour = 9, minute = 30, second = s,
                      microsecond = 0\<rparr>"

definition empty_manager :: manager where
  "empty_manager = \<lparr>jobs_path = ''/srv/jobs'', jobs_dir = [], running_jobs = Map.empty,
                     terminated = [], spawned = []\<rparr>"

definition example_record :: "string \<Rightarrow> pydict" where
  "example_record s =
     [(''job_id'', JStr ''ab12cd34''), (''job_name'', JStr ''job_ab12cd34''),
      (''script'', JStr ''/srv/scripts/run.py''), (''args'', JObj []), (''status'', JStr s),
      (''submitted_at'', JStr ''2024-05-17T09:30:00''), (''started_at'', JNull),
      (''completed_at'', JNull), (''error'', JNull)]"

text \<open>A manager holding one job directory \<open>ab12cd34\<close> with the given content.\<close>

definition one_job :: "job_dir \<Rightarrow> manager" where
  "one_job d = empty_manager\<lparr>jobs_dir := [(''ab12cd34'', JobDir d)]\<rparr>"

definition log_example :: manager where
  "log_example = one_job (empty_dir\<lparr>log := LogLines [''a'', ''b'', ''c'']\<rparr>)"

text \<open>A job that is in the live table while its \<open>metadata.json\<close> does not parse.\<close>

definition unparsable_running :: manager where
  "unparsable_running =
     (one_job (empty_dir\<lparr>meta := Unparsable\<rparr>))\<lparr>running_jobs := [''ab12cd34'' \<mapsto> 4242]\<rparr>"

definition completed_example :: manager where
  "completed_example =
     one_job \<lparr>meta = Parsed (JObj (example_record ''completed'')), log = LogLines [],
              results = Results [(''out.json'', Parses (JObj [(''x'', JNum 1)]))]\<rparr>"

text \<open>A completed job one of whose result files does not parse.\<close>

definition malformed_example :: manager where
  "malformed_example =
     one_job \<lparr>meta = Parsed (JObj (example_record ''completed'')), log = LogLines [],
              results = Results [(''out.json'', Parses (JObj [(''x'', JNum 1)])),
                                 (''bad.json'', DecodeError ''Expecting value'')]\<rparr>"

text \<open>A job whose worker (process 4242) is running, and the same job after one cancel.\<close>

definition running_example :: manager where
  "running_example =
     (one_job \<lparr>meta = Parsed (JObj (example_record ''running'')), log = LogLines [],
               results = NoResults\<rparr>)\<lparr>running_jobs := [''ab12cd34'' \<mapsto> 4242]\<rparr>"

definition cancelled_once :: manager where
  "cancelled_once = fst (cancel_job running_example ''ab12cd34'' (example_time 10))"

definition first_uuid :: string where
  "first_uuid = ''12345678-aaaa-4aaa-8aaa-aaaaaaaaaaaa''"





text \<open>A job whose supervisor has finished, and some later events of other origin.\<close>

definition finished_record :: pydict where
  "finished_record =
     [(''job_id'', JStr ''ab12cd34''), (''job_name'', JStr ''job_ab12cd34''),
      (''script'', JStr ''/srv/scripts/run.py''), (''args'', JObj []),
      (''status'', JStr ''completed''),
      (''submitted_at'', JStr ''2024-05-17T09:30:00''),
      (''started_at'', JStr ''2024-05-17T09:30:10''),
      (''completed_at'', JStr ''2024-05-17T09:30:30''), (''error'', JNull)]"

definition finished_example :: manager where
  "finished_example =
     one_job \<lparr>meta = Parsed (JObj finished_record), log = LogLines [], results = NoResults\<rparr>"

definition later_events :: "event list" where
  "later_events =
     [Call (Cancel ''ab12cd34'' (example_time 40)),
      Call (Status ''ab12cd34''),
      Call (Submit first_uuid ''/srv/scripts/run.py'' [] None (example_time 41)),
      BeginOpen ''12345678'' (example_time 42),
      Call (ListJobs None),
      BeginWrite ''12345678'' (example_record ''running''),
      Launch ''12345678'' (Inr 4243),
      Call (Cancel ''12345678'' (example_time 43)),
      FinishOpen ''12345678'',
      Call (ListJobs None)]"

text \<open>
  A jobs directory with a plain file, a job whose record does not parse, and two jobs
  submitted ten seconds apart.
\<close>

definition older_record :: pydict where
  "older_record =
     [(''job_id'', JStr ''0a0a0a0a''), (''job_name'', JStr ''older''),
      (''script'', JStr ''/srv/scripts/run.py''), (''args'', JObj []),
      (''status'', JStr ''completed''), (''submitted_at'', JStr ''2024-05-17T09:30:10''),
      (''started_at'', JNull), (''completed_at'', JNull), (''error'', JNull)]"

definition newer_record :: pydict where
  "newer_record =
     [(''job_id'', JStr ''0b0b0b0b''), (''job_name'', JStr ''newer''),
      (''script'', JStr ''/srv/scripts/run.py''), (''args'', JObj []),
      (''status'', JStr ''running''), (''submitted_at'', JStr ''2024-05-17T09:30:20''),
      (''started_at'', JNull), (''completed_at'', JNull), (''error'', JNull)]"

definition several_jobs :: manager where
  "several_jobs =
     empty_manager\<lparr>jobs_dir :=
       [(''notes.txt'', PlainFile),
        (''0a0a0a0a'', JobDir (empty_dir\<lparr>meta := Parsed (JObj older_record)\<rparr>)),
        (''0c0c0c0c'', JobDir (empty_dir\<lparr>meta := Unparsable\<rparr>)),
        (''0b0b0b0b'', JobDir (empty_dir\<lparr>meta := Parsed (JObj newer_record)\<rparr>))]\<rparr>"

text \<open>
  Records the loader does not turn into \<open>None\<close>: a file that is not UTF-8, and a
  document without a \<open>status\<close>.
\<close>

definition not_utf8 :: py_exception where
  "not_utf8 = UnicodeDecodeError ''utf-8 codec cannot decode byte 0xff in position 0''"

definition undecodable_example :: manager where
  "undecodable_example = one_job (empty_dir\<lparr>meta := LoadRaises not_utf8\<rparr>)"

definition statusless_example :: manager where
  "statusless_example =
     one_job (empty_dir\<lparr>meta := Parsed (JObj [(''job_id'', JStr ''ab12cd34'')])\<rparr>)"

section \<open>Properties\<close>

subsection \<open>The metadata store\<close>

lemma lookup_put_meta:
  "lookup_dir st j = Some d \<Longrightarrow> lookup_dir (put_meta st j f) j = Some (d\<lparr>meta := f\<rparr>)"
  by (simp add: put_meta_def lookup_dir_def update_conv')

lemma put_meta_frame:
  "running_jobs (put_meta st j f) = running_jobs st \<and>
   terminated (put_meta st j f) = terminated st \<and>
   spawned (put_meta st j f) = spawned st \<and>
   jobs_path (put_meta st j f) = jobs_path st \<and>
   (\<forall>k. k \<noteq> j \<longrightarrow> map_of (jobs_dir (put_meta st j f)) k = map_of (jobs_dir st) k) \<and>
   (map_of (jobs_dir (put_meta st j f)) j = Some PlainFile \<longleftrightarrow>
      map_of (jobs_dir st) j = Some PlainFile)"
  by (auto simp: put_meta_def lookup_dir_def update_conv' split: option.splits entry.splits)

lemma mkdir_frame:
  "mkdir_job st j = Inr st' \<Longrightarrow>
     running_jobs st' = running_jobs st \<and> terminated st' = terminated st \<and>
     spawned st' = spawned st \<and> jobs_path st' = jobs_path st \<and>
     (\<forall>k. k \<noteq> j \<longrightarrow> map_of (jobs_dir st') k = map_of (jobs_dir st) k) \<and>
     map_of (jobs_dir st') j \<noteq> Some PlainFile \<and>
     (\<exists>d. lookup_dir st' j = Some d)"
  by (auto simp: mkdir_job_def lookup_dir_def map_add_def split: option.splits entry.splits)

lemma mkdir_succeeds:
  "map_of (jobs_dir st) j \<noteq> Some PlainFile \<Longrightarrow> \<exists>st'. mkdir_job st j = Inr st'"
  by (auto simp: mkdir_job_def split: option.splits entry.splits)

lemma open_metadata_frame:
  assumes "open_metadata st j = Inr st'"
  shows "running_jobs st' = running_jobs st \<and> terminated st' = terminated st \<and>
     spawned st' = spawned st \<and> jobs_path st' = jobs_path st \<and>
     (\<forall>k. k \<noteq> j \<longrightarrow> map_of (jobs_dir st') k = map_of (jobs_dir st) k) \<and>
     map_of (jobs_dir st') j \<noteq> Some PlainFile \<and>
     load_metadata st' j = Inr JNull"
proof -
  from assms obtain s where mk: "mkdir_job st j = Inr s" and st': "st' = put_meta s j Unparsable"
    by (auto simp: open_metadata_def split: sum.splits)
  from mkdir_frame [OF mk] obtain d where d: "lookup_dir s j = Some d" by blast
  have "load_metadata st' j = Inr JNull"
    using lookup_put_meta [OF d, of Unparsable] st' by (simp add: load_metadata_def)
  then show ?thesis
    using mkdir_frame [OF mk] put_meta_frame [of s j Unparsable] st' by simp
qed

lemma open_metadata_succeeds:
  "map_of (jobs_dir st) j \<noteq> Some PlainFile \<Longrightarrow> \<exists>st'. open_metadata st j = Inr st'"
  using mkdir_succeeds [of st j] by (auto simp: open_metadata_def)

lemma dump_metadata_frame:
  "running_jobs (dump_metadata st j m) = running_jobs st \<and>
   terminated (dump_metadata st j m) = terminated st \<and>
   spawned (dump_metadata st j m) = spawned st \<and>
   jobs_path (dump_metadata st j m) = jobs_path st \<and>
   (\<forall>k. k \<noteq> j \<longrightarrow> map_of (jobs_dir (dump_metadata st j m)) k = map_of (jobs_dir st) k) \<and>
   (map_of (jobs_dir (dump_metadata st j m)) j = Some PlainFile \<longleftrightarrow>
      map_of (jobs_dir st) j = Some PlainFile)"
  unfolding dump_metadata_def by (rule put_meta_frame)

lemma load_after_dump:
  "lookup_dir st j = Some d \<Longrightarrow> load_metadata (dump_metadata st j m) j = Inr (JObj m)"
  using lookup_put_meta [of st j d "Parsed (JObj m)"]
  by (simp add: dump_metadata_def load_metadata_def)

lemma lookup_after_open:
  assumes "open_metadata st j = Inr st'"
  shows "\<exists>d. lookup_dir st' j = Some d"
proof -
  from assms obtain s where mk: "mkdir_job st j = Inr s" and st': "st' = put_meta s j Unparsable"
    by (auto simp: open_metadata_def split: sum.splits)
  from mkdir_frame [OF mk] obtain d where d: "lookup_dir s j = Some d" by blast
  show ?thesis using lookup_put_meta [OF d, of Unparsable] st' by simp
qed

lemma load_after_save:
  assumes "save_metadata st j m = Inr st'"
  shows "load_metadata st' j = Inr (JObj m)"
proof -
  from assms obtain s where op: "open_metadata st j = Inr s" and st': "st' = dump_metadata s j m"
    by (auto simp: save_metadata_def split: sum.splits)
  from lookup_after_open [OF op] obtain d where "lookup_dir s j = Some d" by blast
  then show ?thesis using load_after_dump st' by simp
qed

lemma save_succeeds:
  "map_of (jobs_dir st) j \<noteq> Some PlainFile \<Longrightarrow> \<exists>st'. save_metadata st j m = Inr st'"
  using open_metadata_succeeds [of st j] by (auto simp: save_metadata_def)

lemma save_frame:
  assumes "save_metadata st j m = Inr st'"
  shows "running_jobs st' = running_jobs st \<and> terminated st' = terminated st \<and>
     spawned st' = spawned st \<and> jobs_path st' = jobs_path st \<and>
     (\<forall>k. k \<noteq> j \<longrightarrow> map_of (jobs_dir st') k = map_of (jobs_dir st) k) \<and>
     map_of (jobs_dir st') j \<noteq> Some PlainFile"
proof -
  from assms obtain s where op: "open_metadata st j = Inr s" and st': "st' = dump_metadata s j m"
    by (auto simp: save_metadata_def split: sum.splits)
  show ?thesis
    using open_metadata_frame [OF op] dump_metadata_frame [of s j m] st' by simp
qed

lemma save_keeps_table:
  "save_metadata st j m = Inr st' \<Longrightarrow>
     running_jobs st' = running_jobs st \<and> terminated st' = terminated st \<and>
     spawned st' = spawned st \<and> jobs_path st' = jobs_path st"
  using save_frame by blast

lemma save_keeps_others:
  "save_metadata st j m = Inr st' \<Longrightarrow> k \<noteq> j \<Longrightarrow> map_of (jobs_dir st') k = map_of (jobs_dir st) k"
  using save_frame by blast

lemma save_not_plain:
  "save_metadata st j m = Inr st' \<Longrightarrow> map_of (jobs_dir st') j \<noteq> Some PlainFile"
  using save_frame by blast

lemma load_not_plain:
  "load_metadata st j = Inr md \<Longrightarrow> md \<noteq> JNull \<Longrightarrow> map_of (jobs_dir st) j \<noteq> Some PlainFile"
  by (auto simp: load_metadata_def lookup_dir_def split: option.splits entry.splits)

lemma load_metadata_cong:
  "map_of (jobs_dir a) j = map_of (jobs_dir b) j \<Longrightarrow> load_metadata a j = load_metadata b j"
  by (simp add: load_metadata_def lookup_dir_def)

lemma load_metadata_frame [simp]:
  "load_metadata (st\<lparr>spawned := x\<rparr>) j = load_metadata st j"
  "load_metadata (st\<lparr>terminated := y\<rparr>) j = load_metadata st j"
  "load_metadata (st\<lparr>running_jobs := z\<rparr>) j = load_metadata st j"
  by (simp_all add: load_metadata_def lookup_dir_def)

subsection \<open>Order of the printed timestamps\<close>

lemma digit_char_less: "a < 10 \<Longrightarrow> b < 10 \<Longrightarrow> digit_char a < digit_char b \<longleftrightarrow> a < b"
  by (simp add: digit_char_def less_char_def)

lemma digit_char_eq: "a < 10 \<Longrightarrow> b < 10 \<Longrightarrow> digit_char a = digit_char b \<longleftrightarrow> a = b"
proof -
  assume a: "a < 10" and b: "b < 10"
  have "of_char (digit_char a) = (48 + a)" "of_char (digit_char b) = (48 + b)"
    using a b by (simp_all add: digit_char_def)
  then show ?thesis by (metis add_left_cancel)
qed

lemma digit_char_0: "digit_char 0 = CHR ''0''"
  by code_simp

lemma less_append_same_length:
  fixes a b :: "'a::linorder list"
  shows "length a = length b \<Longrightarrow> a @ x < b @ y \<longleftrightarrow> a < b \<or> (a = b \<and> x < y)"
  by (induction a b rule: list_induct2) auto

lemma zero_pad_1: "zero_pad (Suc 0) n = str_nat n"
proof -
  have "str_nat n \<noteq> []" by (subst str_nat.simps) simp
  then have "Suc 0 - length (str_nat n) = 0" by (cases "str_nat n") simp_all
  then show ?thesis by (simp add: zero_pad_def)
qed

lemma zero_pad_Suc:
  "0 < w \<Longrightarrow> zero_pad (Suc w) n = zero_pad w (n div 10) @ [digit_char (n mod 10)]"
proof (cases "n < 10")
  case True
  assume w: "0 < w"
  have s: "str_nat n = [digit_char n]" "str_nat 0 = [digit_char 0]"
    using True by (simp_all add: str_nat.simps)
  have "replicate w CHR ''0'' = replicate (w - 1) CHR ''0'' @ [CHR ''0'']"
    using w by (cases w) (simp_all add: replicate_append_same)
  then show ?thesis using True s by (simp add: zero_pad_def digit_char_0)
next
  case False
  assume w: "0 < w"
  have s: "str_nat n = str_nat (n div 10) @ [digit_char (n mod 10)]"
    using False by (subst str_nat.simps) simp
  show ?thesis by (simp add: zero_pad_def s)
qed

lemma length_zero_pad: "0 < w \<Longrightarrow> n < 10 ^ w \<Longrightarrow> length (zero_pad w n) = w"
proof (induction w arbitrary: n)
  case 0
  then show ?case by simp
next
  case (Suc w)
  show ?case
  proof (cases "w = 0")
    case True
    then show ?thesis using Suc.prems by (simp add: zero_pad_1 str_nat.simps)
  next
    case False
    then have "n div 10 < 10 ^ w" using Suc.prems by (simp add: less_mult_imp_div_less mult.commute)
    then show ?thesis using False Suc.IH by (simp add: zero_pad_Suc)
  qed
qed

lemma base10_less:
  "r < 10 \<Longrightarrow> s < 10 \<Longrightarrow> (10 * a + r < 10 * b + (s::nat)) \<longleftrightarrow> (a < b \<or> (a = b \<and> r < s))"
  by linarith

lemma divmod_less:
  "(n::nat) < m \<longleftrightarrow> n div 10 < m div 10 \<or> (n div 10 = m div 10 \<and> n mod 10 < m mod 10)"
proof -
  have "n = 10 * (n div 10) + n mod 10" "m = 10 * (m div 10) + m mod 10" by simp_all
  then have "n < m \<longleftrightarrow> 10 * (n div 10) + n mod 10 < 10 * (m div 10) + m mod 10" by simp
  also have "\<dots> \<longleftrightarrow> n div 10 < m div 10 \<or> (n div 10 = m div 10 \<and> n mod 10 < m mod 10)"
    by (rule base10_less) simp_all
  finally show ?thesis .
qed

lemma divmod_eq: "(n::nat) = m \<longleftrightarrow> n div 10 = m div 10 \<and> n mod 10 = m mod 10"
  by (metis div_mult_mod_eq)

lemma zero_pad_less:
  "0 < w \<Longrightarrow> n < 10 ^ w \<Longrightarrow> m < 10 ^ w \<Longrightarrow>
     (zero_pad w n < zero_pad w m \<longleftrightarrow> n < m) \<and> (zero_pad w n = zero_pad w m \<longleftrightarrow> n = m)"
proof (induction w arbitrary: n m)
  case 0
  then show ?case by simp
next
  case (Suc w)
  show ?case
  proof (cases "w = 0")
    case True
    then show ?thesis using Suc.prems
      by (simp add: zero_pad_1 str_nat.simps digit_char_less digit_char_eq)
  next
    case False
    have b: "n div 10 < 10 ^ w" "m div 10 < 10 ^ w"
      using Suc.prems by (simp_all add: less_mult_imp_div_less mult.commute)
    have ih: "(zero_pad w (n div 10) < zero_pad w (m div 10) \<longleftrightarrow> n div 10 < m div 10)"
      "(zero_pad w (n div 10) = zero_pad w (m div 10) \<longleftrightarrow> n div 10 = m div 10)"
      using Suc.IH [OF _ b] False by simp_all
    have len: "length (zero_pad w (n div 10)) = length (zero_pad w (m div 10))"
      using False b by (simp add: length_zero_pad)
    note ar = divmod_less [of n m] and ar2 = divmod_eq [of n m]
    show ?thesis using False
      by (simp add: zero_pad_Suc less_append_same_length [OF len] ih digit_char_less
          digit_char_eq) (use ar ar2 in blast)
  qed
qed

lemma pad_field_last:
  assumes "0 < w" and "x < 10 ^ w" and "y < 10 ^ w"
  shows "(zero_pad w x @ r1 < zero_pad w y @ r2) \<longleftrightarrow> (x < y \<or> (x = y \<and> r1 < r2))"
proof -
  have len: "length (zero_pad w x) = length (zero_pad w y)"
    using assms by (simp add: length_zero_pad)
  show ?thesis
    using zero_pad_less [OF assms] by (simp add: less_append_same_length [OF len])
qed

lemma pad_field:
  assumes "0 < w" and "x < 10 ^ w" and "y < 10 ^ w"
  shows "(zero_pad w x @ c # r1 < zero_pad w y @ c # r2) \<longleftrightarrow> (x < y \<or> (x = y \<and> r1 < r2))"
  by (simp add: pad_field_last [OF assms])

lemma isoformat_shape:
  "isoformat d =
     zero_pad 4 (year d) @ CHR ''-'' # (zero_pad 2 (month d) @ CHR ''-'' # (zero_pad 2 (day d) @
     CHR ''T'' # (zero_pad 2 (hour d) @ CHR '':'' # (zero_pad 2 (minute d) @ CHR '':'' #
     (zero_pad 2 (second d) @
        (if microsecond d = 0 then [] else CHR ''.'' # zero_pad 6 (microsecond d)))))))"
  by (simp add: isoformat_def)

lemma isoformat_order:
  assumes "valid_datetime d1" and "valid_datetime d2"
  shows "isoformat d1 < isoformat d2 \<longleftrightarrow> dt_before d1 d2"
proof -
  have b1: "year d1 < 10 ^ 4" "month d1 < 10 ^ 2" "day d1 < 10 ^ 2" "hour d1 < 10 ^ 2"
    "minute d1 < 10 ^ 2" "second d1 < 10 ^ 2" "microsecond d1 < 10 ^ 6"
    using assms(1) by (simp_all add: valid_datetime_def)
  have b2: "year d2 < 10 ^ 4" "month d2 < 10 ^ 2" "day d2 < 10 ^ 2" "hour d2 < 10 ^ 2"
    "minute d2 < 10 ^ 2" "second d2 < 10 ^ 2" "microsecond d2 < 10 ^ 6"
    using assms(2) by (simp_all add: valid_datetime_def)
  have p4: "(0::nat) < 4" and p2: "(0::nat) < 2" and p6: "(0::nat) < 6" by simp_all
  have us: "(zero_pad 6 (microsecond d1) < zero_pad 6 (microsecond d2))
      \<longleftrightarrow> microsecond d1 < microsecond d2"
    using zero_pad_less [OF p6 b1(7) b2(7)] by simp
  have tl: "(if microsecond d1 = 0 then [] else CHR ''.'' # zero_pad 6 (microsecond d1))
      < (if microsecond d2 = 0 then [] else CHR ''.'' # zero_pad 6 (microsecond d2))
      \<longleftrightarrow> microsecond d1 < microsecond d2"
    using us by auto
  show ?thesis
    unfolding isoformat_shape dt_before_def dt_fields_def fields_before.simps
      pad_field [OF p4 b1(1) b2(1)] pad_field [OF p2 b1(2) b2(2)] pad_field [OF p2 b1(3) b2(3)]
      pad_field [OF p2 b1(4) b2(4)] pad_field [OF p2 b1(5) b2(5)]
      pad_field_last [OF p2 b1(6) b2(6)] tl
    by simp
qed

subsection \<open>Evaluation of printed values\<close>

lemma digit_chars:
  "digit_char 0 = CHR ''0''" "digit_char (Suc 0) = CHR ''1''" "digit_char 1 = CHR ''1''"
  "digit_char 2 = CHR ''2''" "digit_char 3 = CHR ''3''" "digit_char 4 = CHR ''4''"
  "digit_char 5 = CHR ''5''" "digit_char 6 = CHR ''6''" "digit_char 7 = CHR ''7''"
  "digit_char 8 = CHR ''8''" "digit_char 9 = CHR ''9''"
  by code_simp+

lemma isoformat_examples:
  "isoformat (example_time 0) = ''2024-05-17T09:30:00''"
  "isoformat (example_time 10) = ''2024-05-17T09:30:10''"
  "isoformat (example_time 20) = ''2024-05-17T09:30:20''"
  "isoformat (example_time 30) = ''2024-05-17T09:30:30''"
  by (simp_all add: isoformat_def example_time_def zero_pad_def str_nat.simps digit_chars)

lemma str_int_minus_15: "str_int (- 15) = ''-15''"
  by (simp add: str_int_def str_nat.simps digit_chars)

lemma str_int_3: "str_int 3 = ''3''"
  by code_simp

subsection \<open>The worker's command line\<close>

text \<open>
  Every argument whose value is not \<open>None\<close> contributes the flag and \<open>str(value)\<close>
  as two adjacent tokens, and the command line ends with the injected output directory.
\<close>

lemma extend_args_append:
  "extend_args cmd as =
     cmd @ concat (map (\<lambda>(key, v). if v \<noteq> PNone then [''--'' @ key, py_str v] else []) as)"
  by (induction cmd as rule: extend_args.induct) simp_all

lemma build_command_tokens:
  assumes "(key, v) \<in> set as" and "v \<noteq> PNone"
  shows "\<exists>pre post. build_command script_path as job_dir_path =
           pre @ [''--'' @ key, py_str v] @ post @ [''--output'', path_join job_dir_path ''results'']"
proof -
  let ?tok = "\<lambda>(key, v). if v \<noteq> PNone then [''--'' @ key, py_str v] else []"
  from assms(1) obtain xs ys where as: "as = xs @ (key, v) # ys"
    by (meson split_list)
  have "build_command script_path as job_dir_path =
      ([''mamba'', ''run'', ''-p'', ''./env_esmfold'', ''python'', script_path] @ concat (map ?tok xs))
      @ [''--'' @ key, py_str v] @ concat (map ?tok ys)
      @ [''--output'', path_join job_dir_path ''results'']"
    using assms(2) unfolding build_command_def extend_args_append as by simp
  then show ?thesis by (intro exI)
qed

text \<open>
  C2, at the argument \<open>include-per-tok\<close> with the empty string as its value (what the
  server passes for a switch): the command line holds the flag followed by an empty
  token, then the injected output directory.
\<close>

theorem build_command_empty_string_value:
  "build_command ''/srv/scripts/run.py'' [(''include-per-tok'', PStr '''')] ''/srv/jobs/ab12cd34'' =
     [''mamba'', ''run'', ''-p'', ''./env_esmfold'', ''python'', ''/srv/scripts/run.py'',
      ''--include-per-tok'', '''', ''--output'', ''/srv/jobs/ab12cd34/results'']"
  by (simp add: build_command_def path_join_def)

subsection \<open>\<open>get_job_log\<close>\<close>

text \<open>
  C6, amended: for a job with a log file of n lines, \<open>get_job_log\<close> with tail 0 returns
  all n lines; with a tail greater than 0 it returns the last min(tail, n) lines; with a
  tail below 0 it returns the lines that follow the first \<open>- tail\<close> ones; in each case
  the total is n. When there is no log file the answer is the error "Log not found".
\<close>

theorem log_returns_tail:
  "(\<forall>d lines. lookup_dir st jid = Some d \<and> log d = LogLines lines \<longrightarrow>
      get_job_log st jid 0 = Inr (LogResp jid lines (length lines)) \<and>
      (0 < tail \<longrightarrow>
         get_job_log st jid tail =
           Inr (LogResp jid (drop (length lines - nat (min tail (int (length lines)))) lines)
                  (length lines)) \<and>
         int (length (drop (length lines - nat (min tail (int (length lines)))) lines)) =
           min tail (int (length lines))) \<and>
      (tail < 0 \<longrightarrow>
         get_job_log st jid tail = Inr (LogResp jid (drop (nat (- tail)) lines) (length lines)))) \<and>
   ((lookup_dir st jid = None \<or> (\<exists>d. lookup_dir st jid = Some d \<and> log d = NoLog)) \<longrightarrow>
      get_job_log st jid tail = Inr (ErrorResp (''Log not found for job '' @ jid)))"
proof -
  have eq: "\<And>n::nat. 0 < tail \<Longrightarrow> tail \<le> int n \<Longrightarrow> nat (int n - tail) = n - nat tail"
    by arith
  show ?thesis
    by (auto simp: get_job_log_def py_slice_from_def min_def max_def eq)
qed

theorem log_returns_tail_witness:
  "get_job_log log_example ''ab12cd34'' 0 = Inr (LogResp ''ab12cd34'' [''a'', ''b'', ''c''] 3) \<and>
   get_job_log log_example ''ab12cd34'' 2 = Inr (LogResp ''ab12cd34'' [''b'', ''c''] 3) \<and>
   get_job_log empty_manager ''ab12cd34'' 2 = Inr (ErrorResp ''Log not found for job ab12cd34'')"
proof -
  have a: "lookup_dir log_example ''ab12cd34'' = Some (empty_dir\<lparr>log := LogLines [''a'', ''b'', ''c'']\<rparr>)
      \<and> log (empty_dir\<lparr>log := LogLines [''a'', ''b'', ''c'']\<rparr>) = LogLines [''a'', ''b'', ''c'']"
    by (simp add: log_example_def lookup_dir_def one_job_def empty_manager_def)
  have b: "lookup_dir empty_manager ''ab12cd34'' = None"
    by (simp add: lookup_dir_def empty_manager_def)
  from log_returns_tail [of log_example "''ab12cd34''" 2] a
  have 1: "get_job_log log_example ''ab12cd34'' 0 = Inr (LogResp ''ab12cd34'' [''a'', ''b'', ''c''] 3)"
    and 2: "get_job_log log_example ''ab12cd34'' 2 = Inr (LogResp ''ab12cd34'' [''b'', ''c''] 3)"
    by auto
  from log_returns_tail [of empty_manager "''ab12cd34''" 2] b
  have 3: "get_job_log empty_manager ''ab12cd34'' 2 = Inr (ErrorResp ''Log not found for job ab12cd34'')"
    by simp
  show ?thesis using 1 2 3 by simp
qed

text \<open>
  C6 as stated fails for a negative tail: with three lines and tail \<open>-1\<close> the answer
  holds two lines, which is not min(-1, 3) lines.
\<close>

theorem log_negative_tail_counterexample:
  "get_job_log log_example ''ab12cd34'' (- 1) = Inr (LogResp ''ab12cd34'' [''b'', ''c''] 3) \<and>
   int (length [''b'', ''c'']) \<noteq> min (- 1) (int (length [''a'', ''b'', ''c'']))"
  by (simp add: get_job_log_def log_example_def lookup_dir_def one_job_def empty_manager_def
      py_slice_from_def)

subsection \<open>The supervisor's classification of the outcome\<close>

lemma map_of_dict_set: "map_of (dict_set kvs k v) = (map_of kvs)(k \<mapsto> v)"
  by (simp add: dict_set_def update_conv')

text \<open>
  C5: after the worker has exited (or launching or waiting raised), the supervisor's final
  step saves a record whose status is \<open>completed\<close> for exit code 0, \<open>failed\<close> with an
  error message that contains the code for any other exit code, and \<open>failed\<close> with an
  error message that contains the exception's text when an exception was raised. The step
  is taken for a job whose path in the jobs directory is not a plain file.
\<close>

theorem supervisor_classifies_outcome:
  assumes "map_of (jobs_dir st) jid \<noteq> Some PlainFile"
  shows "\<exists>st' m'. run_job_finish st jid m out now = (st', Inr m') \<and>
           load_metadata st' jid = Inr (JObj m') \<and>
           running_jobs st' jid = None \<and>
           map_of m' ''completed_at'' = Some (JStr (isoformat now)) \<and>
           (out = Exited 0 \<longrightarrow> map_of m' ''status'' = Some (JStr (status_value COMPLETED))) \<and>
           (\<forall>c. out = Exited c \<and> c \<noteq> 0 \<longrightarrow>
                map_of m' ''status'' = Some (JStr (status_value FAILED)) \<and>
                map_of m' ''error'' = Some (JStr (''Process exited with code '' @ str_int c)) \<and>
                (\<exists>msg. map_of m' ''error'' = Some (JStr msg) \<and> sublist (str_int c) msg)) \<and>
           (\<forall>e. out = Raised e \<longrightarrow>
                map_of m' ''status'' = Some (JStr (status_value FAILED)) \<and>
                (\<exists>msg. map_of m' ''error'' = Some (JStr msg) \<and> sublist e msg))"
proof -
  let ?m' = "dict_set (classify m out) ''completed_at'' (JStr (isoformat now))"
  from save_succeeds [OF assms] obtain s where s: "save_metadata st jid ?m' = Inr s"
    by blast
  have fin: "run_job_finish st jid m out now =
      (s\<lparr>running_jobs := (running_jobs s)(jid := None)\<rparr>, Inr ?m')"
    using s by (simp add: run_job_finish_def)
  have ld: "load_metadata (s\<lparr>running_jobs := (running_jobs s)(jid := None)\<rparr>) jid = Inr (JObj ?m')"
    using load_after_save [OF s] by simp
  have sub: "\<And>c. sublist (str_int c) (''Process exited with code '' @ str_int c)"
    by (rule sublist_append_leftI)
  have cl: "(out = Exited 0 \<longrightarrow> map_of ?m' ''status'' = Some (JStr (status_value COMPLETED))) \<and>
           (\<forall>c. out = Exited c \<and> c \<noteq> 0 \<longrightarrow>
                map_of ?m' ''status'' = Some (JStr (status_value FAILED)) \<and>
                map_of ?m' ''error'' = Some (JStr (''Process exited with code '' @ str_int c)) \<and>
                (\<exists>msg. map_of ?m' ''error'' = Some (JStr msg) \<and> sublist (str_int c) msg)) \<and>
           (\<forall>e. out = Raised e \<longrightarrow>
                map_of ?m' ''status'' = Some (JStr (status_value FAILED)) \<and>
                (\<exists>msg. map_of ?m' ''error'' = Some (JStr msg) \<and> sublist e msg))"
    using sub by (auto simp: classify_def map_of_dict_set)
  have tb: "running_jobs (s\<lparr>running_jobs := (running_jobs s)(jid := None)\<rparr>) jid = None"
    and ca: "map_of ?m' ''completed_at'' = Some (JStr (isoformat now))"
    by (simp_all add: map_of_dict_set)
  show ?thesis using fin ld tb ca cl by blast
qed

theorem supervisor_classifies_outcome_witness:
  "\<exists>st' m'. run_job_finish
       (one_job (empty_dir\<lparr>meta := Parsed (JObj (example_record ''running''))\<rparr>))
       ''ab12cd34'' (example_record ''running'') (Exited 3) (example_time 9) = (st', Inr m') \<and>
     load_metadata st' ''ab12cd34'' = Inr (JObj m') \<and>
     map_of m' ''status'' = Some (JStr ''failed'') \<and>
     map_of m' ''error'' = Some (JStr ''Process exited with code 3'')"
proof -
  have h: "map_of (jobs_dir (one_job (empty_dir\<lparr>meta := Parsed (JObj (example_record ''running''))\<rparr>)))
             ''ab12cd34'' \<noteq> Some PlainFile"
    by (simp add: one_job_def empty_manager_def)
  show ?thesis
    using supervisor_classifies_outcome [OF h, of "example_record ''running''" "Exited 3"
        "example_time 9"]
    by (auto simp: str_int_3)
qed

subsection \<open>\<open>cancel_job\<close> and a record that does not load\<close>

text \<open>
  C4, at a job that is in the live table while its record does not parse:
  \<open>cancel_job\<close> raises \<open>TypeError\<close> (the item assignment on \<open>None\<close>) instead of
  answering with an error.
\<close>

theorem cancel_unparsable_metadata_raises:
  "running_jobs unparsable_running ''ab12cd34'' = Some 4242 \<and>
   load_metadata unparsable_running ''ab12cd34'' = Inr JNull \<and>
   snd (cancel_job unparsable_running ''ab12cd34'' (example_time 5)) = Inl none_item_assignment"
  by (simp add: cancel_job_def unparsable_running_def load_metadata_def lookup_dir_def
      one_job_def empty_manager_def empty_dir_def none_item_assignment_def)

subsection \<open>Frame lemmas\<close>

lemma submit_job_result:
  assumes "submit_job st uuid sp as name now = (st', Inr r)"
  shows "\<exists>msg. r = Submitted (take 8 uuid) msg \<and>
           load_metadata st' (take 8 uuid) = Inr (JObj (new_record (take 8 uuid) name sp as now)) \<and>
           running_jobs st' = running_jobs st \<and>
           (\<forall>k. k \<noteq> take 8 uuid \<longrightarrow> map_of (jobs_dir st') k = map_of (jobs_dir st) k)"
proof -
  let ?md = "new_record (take 8 uuid) name sp as now"
  from assms obtain st1 st2 where
    mk: "mkdir_job st (take 8 uuid) = Inr st1" and
    sv: "save_metadata st1 (take 8 uuid) ?md = Inr st2" and
    st': "st' = st2\<lparr>spawned := spawned st2 @ [(take 8 uuid, sp, as)]\<rparr>" and
    r: "\<exists>msg. r = Submitted (take 8 uuid) msg"
    by (auto simp: submit_job_def Let_def split: sum.splits)
  have "load_metadata st' (take 8 uuid) = Inr (JObj ?md)"
    using load_after_save [OF sv] st' by simp
  moreover have "running_jobs st' = running_jobs st"
    using save_keeps_table [OF sv] mkdir_frame [OF mk] st' by simp
  moreover have "\<forall>k. k \<noteq> take 8 uuid \<longrightarrow> map_of (jobs_dir st') k = map_of (jobs_dir st) k"
    using save_keeps_others [OF sv] mkdir_frame [OF mk] st' by simp
  ultimately show ?thesis using r by blast
qed

lemma cancel_job_success:
  assumes "running_jobs st jid = Some pid" and "load_metadata st jid = Inr (JObj kvs)"
  shows "\<exists>st'. cancel_job st jid now = (st', Inr (CancelResp (''Job '' @ jid @ '' cancelled''))) \<and>
           running_jobs st' = running_jobs st \<and>
           terminated st' = terminated st @ [pid] \<and>
           load_metadata st' jid =
             Inr (JObj (dict_set (dict_set kvs ''status'' (JStr (status_value CANCELLED)))
                          ''completed_at'' (JStr (isoformat now))))"
proof -
  let ?st1 = "st\<lparr>terminated := terminated st @ [pid]\<rparr>"
  let ?m = "dict_set (dict_set kvs ''status'' (JStr (status_value CANCELLED)))
              ''completed_at'' (JStr (isoformat now))"
  have np: "map_of (jobs_dir ?st1) jid \<noteq> Some PlainFile"
    using load_not_plain [OF assms(2)] by simp
  from save_succeeds [OF np] obtain st2 where sv: "save_metadata ?st1 jid ?m = Inr st2"
    by blast
  have "cancel_job st jid now = (st2, Inr (CancelResp (''Job '' @ jid @ '' cancelled'')))"
    using assms sv by (simp add: cancel_job_def)
  moreover have "running_jobs st2 = running_jobs st" "terminated st2 = terminated st @ [pid]"
    using save_keeps_table [OF sv] by simp_all
  moreover have "load_metadata st2 jid = Inr (JObj ?m)"
    by (rule load_after_save [OF sv])
  ultimately show ?thesis by blast
qed

lemma cancel_job_frame:
  "running_jobs (fst (cancel_job st jid now)) = running_jobs st \<and>
   (\<forall>k. k \<noteq> jid \<longrightarrow> map_of (jobs_dir (fst (cancel_job st jid now))) k = map_of (jobs_dir st) k) \<and>
   (running_jobs st jid = None \<longrightarrow> fst (cancel_job st jid now) = st)"
proof (cases "running_jobs st jid")
  case None
  then show ?thesis by (simp add: cancel_job_def)
next
  case (Some pid)
  let ?st1 = "st\<lparr>terminated := terminated st @ [pid]\<rparr>"
  have "fst (cancel_job st jid now) = ?st1 \<or>
      (\<exists>m st2. save_metadata ?st1 jid m = Inr st2 \<and> fst (cancel_job st jid now) = st2)"
    using Some by (auto simp: cancel_job_def Let_def split: sum.splits)
  then show ?thesis
  proof
    assume "fst (cancel_job st jid now) = ?st1"
    then show ?thesis using Some by simp
  next
    assume "\<exists>m st2. save_metadata ?st1 jid m = Inr st2 \<and> fst (cancel_job st jid now) = st2"
    then obtain m st2 where sv: "save_metadata ?st1 jid m = Inr st2"
      and eq: "fst (cancel_job st jid now) = st2" by blast
    show ?thesis using save_frame [OF sv] eq Some by simp
  qed
qed

lemma submit_job_frame:
  "running_jobs (fst (submit_job st uuid sp as name now)) = running_jobs st \<and>
   (\<forall>k. k \<noteq> take 8 uuid \<longrightarrow>
      map_of (jobs_dir (fst (submit_job st uuid sp as name now))) k = map_of (jobs_dir st) k)"
proof (cases "submit_job st uuid sp as name now")
  case (Pair st' r)
  show ?thesis
  proof (cases r)
    case (Inl e)
    then have "st' = st \<or> mkdir_job st (take 8 uuid) = Inr st'"
      using Pair by (auto simp: submit_job_def Let_def split: sum.splits)
    then show ?thesis using Pair mkdir_frame [of st "take 8 uuid" st'] by auto
  next
    case (Inr resp)
    then show ?thesis using Pair submit_job_result [of st uuid sp as name now st' resp] by auto
  qed
qed

lemma perform_keeps_table: "running_jobs (fst (perform st c)) = running_jobs st"
  by (cases c) (simp_all add: submit_job_frame cancel_job_frame)

subsection \<open>What each step leaves unchanged\<close>

lemma run_job_begin_open_cases:
  "fst (run_job_begin_open st j t) = st \<or>
   (\<exists>st'. open_metadata st j = Inr st' \<and> fst (run_job_begin_open st j t) = st')"
  by (auto simp: run_job_begin_open_def Let_def split: sum.splits)

lemma run_job_begin_open_frame:
  "running_jobs (fst (run_job_begin_open st j t)) = running_jobs st \<and>
   (\<forall>k. k \<noteq> j \<longrightarrow>
      map_of (jobs_dir (fst (run_job_begin_open st j t))) k = map_of (jobs_dir st) k)"
  using run_job_begin_open_cases [of st j t] open_metadata_frame [of st j] by auto

lemma run_job_begin_write_frame:
  "running_jobs (run_job_begin_write st j m) = running_jobs st \<and>
   (\<forall>k. k \<noteq> j \<longrightarrow> map_of (jobs_dir (run_job_begin_write st j m)) k = map_of (jobs_dir st) k)"
  using dump_metadata_frame [of st j m] by (simp add: run_job_begin_write_def)

lemma run_job_begin_frame:
  "running_jobs (fst (run_job_begin st j t)) = running_jobs st \<and>
   (\<forall>k. k \<noteq> j \<longrightarrow> map_of (jobs_dir (fst (run_job_begin st j t))) k = map_of (jobs_dir st) k)"
proof (cases "run_job_begin_open st j t")
  case (Pair st' r)
  have o: "running_jobs st' = running_jobs st \<and>
      (\<forall>k. k \<noteq> j \<longrightarrow> map_of (jobs_dir st') k = map_of (jobs_dir st) k)"
    using run_job_begin_open_frame [of st j t] Pair by simp
  show ?thesis
  proof (cases r)
    case (Inl e)
    then show ?thesis using Pair o by (simp add: run_job_begin_def)
  next
    case (Inr m)
    then have "fst (run_job_begin st j t) = run_job_begin_write st' j m"
      using Pair by (simp add: run_job_begin_def)
    then show ?thesis using o run_job_begin_write_frame [of st' j m] by simp
  qed
qed


lemma run_job_finish_open_frame:
  "running_jobs (run_job_finish_open st j) = running_jobs st \<and>
   (\<forall>k. k \<noteq> j \<longrightarrow> map_of (jobs_dir (run_job_finish_open st j)) k = map_of (jobs_dir st) k)"
proof (cases "open_metadata st j")
  case (Inl e)
  then show ?thesis by (simp add: run_job_finish_open_def)
next
  case (Inr st')
  then show ?thesis using open_metadata_frame [OF Inr] by (simp add: run_job_finish_open_def)
qed

lemma set_log_frame:
  "running_jobs (set_log st j l) = running_jobs st \<and>
   (\<forall>k. k \<noteq> j \<longrightarrow> map_of (jobs_dir (set_log st j l)) k = map_of (jobs_dir st) k)"
  by (auto simp: set_log_def update_conv' split: option.splits)

lemma run_job_launch_frame:
  "(\<forall>k. k \<noteq> j \<longrightarrow>
      running_jobs (fst (run_job_launch st j p)) k = running_jobs st k \<and>
      map_of (jobs_dir (fst (run_job_launch st j p))) k = map_of (jobs_dir st) k) \<and>
   (running_jobs st j \<noteq> None \<longrightarrow> running_jobs (fst (run_job_launch st j p)) j \<noteq> None)"
proof (cases "map_of (jobs_dir st) j")
  case None
  then show ?thesis by (simp add: run_job_launch_def)
next
  case (Some e)
  show ?thesis
  proof (cases e)
    case PlainFile
    then show ?thesis using Some by (simp add: run_job_launch_def)
  next
    case (JobDir d)
    show ?thesis
    proof (cases p)
      case (Inl msg)
      then show ?thesis
        using Some JobDir set_log_frame [of st j "LogLines []"] by (simp add: run_job_launch_def)
    next
      case (Inr pid)
      then show ?thesis
        using Some JobDir set_log_frame [of st j "LogLines []"] by (simp add: run_job_launch_def)
    qed
  qed
qed

lemma run_job_finish_frame:
  "(\<forall>k. k \<noteq> j \<longrightarrow>
      running_jobs (fst (run_job_finish st j m out t)) k = running_jobs st k \<and>
      map_of (jobs_dir (fst (run_job_finish st j m out t))) k = map_of (jobs_dir st) k)"
proof (cases "save_metadata st j
    (dict_set (classify m out) ''completed_at'' (JStr (isoformat t)))")
  case (Inl e)
  then show ?thesis by (simp add: run_job_finish_def)
next
  case (Inr st')
  then have "fst (run_job_finish st j m out t) = st'\<lparr>running_jobs := (running_jobs st')(j := None)\<rparr>"
    by (simp add: run_job_finish_def)
  then show ?thesis using save_frame [OF Inr] by simp
qed

lemma run_job_finish_removes:
  assumes "map_of (jobs_dir st) j \<noteq> Some PlainFile"
  shows "running_jobs (fst (run_job_finish st j m out t)) j = None"
proof -
  from save_succeeds [OF assms] obtain st' where
    "save_metadata st j (dict_set (classify m out) ''completed_at'' (JStr (isoformat t))) = Inr st'"
    by blast
  then show ?thesis by (simp add: run_job_finish_def)
qed

lemma step_keeps_entry:
  assumes "running_jobs st jid \<noteq> None" and "\<forall>m out t. ev \<noteq> Finish jid m out t"
  shows "running_jobs (step st ev) jid \<noteq> None"
proof (cases ev)
  case (Call c)
  then show ?thesis using assms(1) by (simp add: perform_keeps_table)
next
  case (Begin j t)
  then show ?thesis using assms(1) run_job_begin_frame [of st j t] by simp
next
  case (BeginOpen j t)
  then show ?thesis using assms(1) run_job_begin_open_frame [of st j t] by simp
next
  case (BeginWrite j m)
  then show ?thesis using assms(1) run_job_begin_write_frame [of st j m] by simp
next
  case (Launch j p)
  then show ?thesis using assms(1) run_job_launch_frame [of j st p] by (cases "j = jid") auto
next
  case (FinishOpen j)
  then show ?thesis using assms(1) run_job_finish_open_frame [of st j] by simp
next
  case (Finish j m out t)
  then have "j \<noteq> jid" using assms(2) by auto
  then show ?thesis using Finish assms(1) run_job_finish_frame [of j st m out t] by auto
qed

lemma perform_frame:
  assumes "running_jobs st jid = None" and "\<not> supervises (Call c) jid"
  shows "map_of (jobs_dir (fst (perform st c))) jid = map_of (jobs_dir st) jid"
proof (cases c)
  case (Submit uuid sp as name now)
  then show ?thesis using assms(2) submit_job_frame [of st uuid sp as name now] by auto
next
  case (Cancel j now)
  then show ?thesis using assms(1) cancel_job_frame [of st j now] by (cases "j = jid") auto
qed simp_all

lemma step_frame:
  assumes "running_jobs st jid = None" and "\<not> supervises ev jid"
  shows "map_of (jobs_dir (step st ev)) jid = map_of (jobs_dir st) jid \<and>
         running_jobs (step st ev) jid = None"
proof (cases ev)
  case (Call c)
  then show ?thesis using assms perform_frame [of st jid c] by (simp add: perform_keeps_table)
next
  case (Begin j t)
  then show ?thesis using assms run_job_begin_frame [of st j t] by simp
next
  case (BeginOpen j t)
  then show ?thesis using assms run_job_begin_open_frame [of st j t] by simp
next
  case (BeginWrite j m)
  then show ?thesis using assms run_job_begin_write_frame [of st j m] by simp
next
  case (Launch j p)
  then show ?thesis using assms run_job_launch_frame [of j st p] by simp
next
  case (FinishOpen j)
  then show ?thesis using assms run_job_finish_open_frame [of st j] by simp
next
  case (Finish j m out t)
  then show ?thesis using assms run_job_finish_frame [of j st m out t] by simp
qed

lemma run_events_frame:
  "running_jobs st jid = None \<Longrightarrow> \<forall>ev \<in> set evs. \<not> supervises ev jid \<Longrightarrow>
     map_of (jobs_dir (run_events st evs)) jid = map_of (jobs_dir st) jid \<and>
     running_jobs (run_events st evs) jid = None"
proof (induction evs arbitrary: st)
  case Nil
  then show ?case by (simp add: run_events_def)
next
  case (Cons ev evs)
  have s: "map_of (jobs_dir (step st ev)) jid = map_of (jobs_dir st) jid"
    "running_jobs (step st ev) jid = None"
    using step_frame [of st jid ev] Cons.prems by simp_all
  have "map_of (jobs_dir (run_events (step st ev) evs)) jid = map_of (jobs_dir (step st ev)) jid \<and>
     running_jobs (run_events (step st ev) evs) jid = None"
    using Cons.IH [OF s(2)] Cons.prems(2) by simp
  then show ?case using s by (simp add: run_events_def)
qed

subsection \<open>Cancelling twice\<close>

text \<open>
  C10: a successful \<open>cancel_job\<close> leaves the job in the live table; the entry goes only
  with the final step of the job's supervisor, every other event keeps it. So while the
  worker has not exited, a second \<open>cancel_job\<close> on the same id succeeds as well, calls
  \<open>terminate()\<close> on the process again, and overwrites \<open>completed_at\<close> with the
  timestamp of the second call, which is the later string when the second call is later.
\<close>

theorem second_cancel_succeeds:
  assumes "running_jobs st jid = Some pid" and "load_metadata st jid = Inr (JObj kvs)"
  shows "\<exists>st1 st2 k1 k2.
     cancel_job st jid t1 = (st1, Inr (CancelResp (''Job '' @ jid @ '' cancelled''))) \<and>
     running_jobs st1 jid = Some pid \<and>
     cancel_job st1 jid t2 = (st2, Inr (CancelResp (''Job '' @ jid @ '' cancelled''))) \<and>
     running_jobs st2 jid = Some pid \<and>
     terminated st2 = terminated st @ [pid, pid] \<and>
     load_metadata st1 jid = Inr (JObj k1) \<and>
     map_of k1 ''status'' = Some (JStr (status_value CANCELLED)) \<and>
     map_of k1 ''completed_at'' = Some (JStr (isoformat t1)) \<and>
     load_metadata st2 jid = Inr (JObj k2) \<and>
     map_of k2 ''status'' = Some (JStr (status_value CANCELLED)) \<and>
     map_of k2 ''completed_at'' = Some (JStr (isoformat t2)) \<and>
     (valid_datetime t1 \<and> valid_datetime t2 \<and> dt_before t1 t2 \<longrightarrow> isoformat t1 < isoformat t2) \<and>
     (\<forall>ev. (\<forall>m' out t. ev \<noteq> Finish jid m' out t) \<longrightarrow> running_jobs (step st1 ev) jid \<noteq> None) \<and>
     (\<forall>m' out t. running_jobs (step st1 (Finish jid m' out t)) jid = None)"
proof -
  let ?k1 = "dict_set (dict_set kvs ''status'' (JStr (status_value CANCELLED)))
               ''completed_at'' (JStr (isoformat t1))"
  let ?k2 = "dict_set (dict_set ?k1 ''status'' (JStr (status_value CANCELLED)))
               ''completed_at'' (JStr (isoformat t2))"
  from cancel_job_success [OF assms, of t1] obtain st1 where
    c1: "cancel_job st jid t1 = (st1, Inr (CancelResp (''Job '' @ jid @ '' cancelled'')))" and
    r1: "running_jobs st1 = running_jobs st" and
    k1: "terminated st1 = terminated st @ [pid]" and
    l1: "load_metadata st1 jid = Inr (JObj ?k1)"
    by blast
  have e1: "running_jobs st1 jid = Some pid" using r1 assms(1) by simp
  from cancel_job_success [OF e1 l1, of t2] obtain st2 where
    c2: "cancel_job st1 jid t2 = (st2, Inr (CancelResp (''Job '' @ jid @ '' cancelled'')))" and
    r2: "running_jobs st2 = running_jobs st1" and
    k2: "terminated st2 = terminated st1 @ [pid]" and
    l2: "load_metadata st2 jid = Inr (JObj ?k2)"
    by blast
  have e2: "running_jobs st2 jid = Some pid" using r2 e1 by simp
  have k: "terminated st2 = terminated st @ [pid, pid]" using k1 k2 by simp
  have a1: "map_of ?k1 ''status'' = Some (JStr (status_value CANCELLED))"
    "map_of ?k1 ''completed_at'' = Some (JStr (isoformat t1))"
    by (simp_all add: map_of_dict_set)
  have a2: "map_of ?k2 ''status'' = Some (JStr (status_value CANCELLED))"
    "map_of ?k2 ''completed_at'' = Some (JStr (isoformat t2))"
    by (simp_all add: map_of_dict_set)
  have o: "valid_datetime t1 \<and> valid_datetime t2 \<and> dt_before t1 t2 \<longrightarrow> isoformat t1 < isoformat t2"
    using isoformat_order [of t1 t2] by blast
  have keep: "\<forall>ev. (\<forall>m' out t. ev \<noteq> Finish jid m' out t) \<longrightarrow> running_jobs (step st1 ev) jid \<noteq> None"
    using step_keeps_entry [of st1 jid] e1 by simp
  have np: "map_of (jobs_dir st1) jid \<noteq> Some PlainFile"
    by (rule load_not_plain [OF l1]) simp
  have rem: "\<forall>m' out t. running_jobs (step st1 (Finish jid m' out t)) jid = None"
    using run_job_finish_removes [OF np] by simp
  show ?thesis using c1 e1 c2 e2 k l1 a1 l2 a2 o keep rem by blast
qed

theorem second_cancel_succeeds_witness:
  "\<exists>st1 st2 k2.
     cancel_job running_example ''ab12cd34'' (example_time 10) =
       (st1, Inr (CancelResp ''Job ab12cd34 cancelled'')) \<and>
     cancel_job st1 ''ab12cd34'' (example_time 20) =
       (st2, Inr (CancelResp ''Job ab12cd34 cancelled'')) \<and>
     running_jobs st2 ''ab12cd34'' = Some 4242 \<and>
     terminated st2 = [4242, 4242] \<and>
     load_metadata st2 ''ab12cd34'' = Inr (JObj k2) \<and>
     map_of k2 ''completed_at'' = Some (JStr ''2024-05-17T09:30:20'') \<and>
     isoformat (example_time 10) < isoformat (example_time 20)"
proof -
  have a: "running_jobs running_example ''ab12cd34'' = Some 4242"
    by (simp add: running_example_def)
  have b: "load_metadata running_example ''ab12cd34'' = Inr (JObj (example_record ''running''))"
    by (simp add: running_example_def one_job_def empty_manager_def load_metadata_def
        lookup_dir_def)
  have v: "valid_datetime (example_time 10) \<and> valid_datetime (example_time 20) \<and>
      dt_before (example_time 10) (example_time 20)"
    by (simp add: valid_datetime_def example_time_def dt_before_def dt_fields_def)
  have t: "terminated running_example = []"
    by (simp add: running_example_def one_job_def empty_manager_def)
  show ?thesis
    using second_cancel_succeeds [OF a b, of "example_time 10" "example_time 20"] v
    by (simp add: t isoformat_examples) blast
qed

subsection \<open>The record of a finished job\<close>

lemmas store_eval =
  load_metadata_def lookup_dir_def save_metadata_def open_metadata_def dump_metadata_def
  put_meta_def mkdir_job_def dict_set_def and_then_def one_job_def empty_manager_def

lemma cancelled_once_eq:
  "cancelled_once =
     (one_job \<lparr>meta = Parsed (JObj (dict_set (dict_set (example_record ''running'')
                  ''status'' (JStr ''cancelled'')) ''completed_at'' (JStr ''2024-05-17T09:30:10''))),
               log = LogLines [], results = NoResults\<rparr>)
       \<lparr>running_jobs := [''ab12cd34'' \<mapsto> 4242], terminated := [4242]\<rparr>"
  by (simp add: cancelled_once_def cancel_job_def running_example_def store_eval
      example_record_def isoformat_examples)

text \<open>
  C3 as stated fails: after a first cancel the record is \<open>cancelled\<close> with
  \<open>completed_at\<close> set; a second cancel rewrites \<open>completed_at\<close>, and the supervisor's
  final step (the worker exits with code -15 after the termination request) rewrites the
  status to \<open>failed\<close>.
\<close>

theorem terminal_record_changes_counterexample:
  "and_then (load_metadata cancelled_once ''ab12cd34'') (\<lambda>md. getitem md ''status'') =
     Inr (JStr ''cancelled'') \<and>
   and_then (load_metadata cancelled_once ''ab12cd34'') (\<lambda>md. getitem md ''completed_at'') =
     Inr (JStr ''2024-05-17T09:30:10'') \<and>
   and_then (load_metadata (fst (cancel_job cancelled_once ''ab12cd34'' (example_time 20)))
               ''ab12cd34'') (\<lambda>md. getitem md ''completed_at'') =
     Inr (JStr ''2024-05-17T09:30:20'') \<and>
   and_then (load_metadata (fst (run_job_finish cancelled_once ''ab12cd34''
               (example_record ''running'') (Exited (- 15)) (example_time 30))) ''ab12cd34'')
            (\<lambda>md. getitem md ''status'') =
     Inr (JStr ''failed'')"
  by (simp add: cancelled_once_eq cancel_job_def run_job_finish_def classify_def store_eval
      example_record_def isoformat_examples Let_def)

text \<open>
  C3, amended: once a job's record holds a terminal status with \<open>completed_at\<close> set and
  the job is no longer in the live table (its supervisor has finished), the record keeps
  every field through any sequence of later events that are calls of \<open>get_job_status\<close>,
  \<open>get_job_result\<close>, \<open>get_job_log\<close>, \<open>list_jobs\<close> or \<open>cancel_job\<close> with any
  arguments, calls of \<open>submit_job\<close> that are given another id, and steps of the
  supervisors of other jobs.
\<close>

theorem finished_record_is_kept:
  assumes "load_metadata st jid = Inr (JObj kvs)"
    and "\<exists>s. map_of kvs ''status'' = Some (JStr s) \<and> terminal s"
    and "\<exists>t. map_of kvs ''completed_at'' = Some (JStr t)"
    and "running_jobs st jid = None"
    and "\<forall>ev \<in> set evs. \<not> supervises ev jid"
  shows "load_metadata (run_events st evs) jid = Inr (JObj kvs)"
  using run_events_frame [OF assms(4) assms(5)] load_metadata_cong [of "run_events st evs" jid st]
    assms(1) by simp

theorem finished_record_is_kept_witness:
  "load_metadata (run_events finished_example later_events) ''ab12cd34'' =
     Inr (JObj finished_record) \<and>
   map_of finished_record ''status'' = Some (JStr ''completed'') \<and>
   map_of finished_record ''completed_at'' = Some (JStr ''2024-05-17T09:30:30'')"
proof -
  have a: "load_metadata finished_example ''ab12cd34'' = Inr (JObj finished_record)"
    by (simp add: finished_example_def one_job_def empty_manager_def load_metadata_def
        lookup_dir_def)
  have b: "\<exists>s. map_of finished_record ''status'' = Some (JStr s) \<and> terminal s"
    by (simp add: terminal_def finished_record_def)
  have c: "\<exists>t. map_of finished_record ''completed_at'' = Some (JStr t)"
    by (simp add: finished_record_def)
  have d: "running_jobs finished_example ''ab12cd34'' = None"
    by (simp add: finished_example_def one_job_def empty_manager_def)
  have e: "\<forall>ev \<in> set later_events. \<not> supervises ev ''ab12cd34''"
    by (simp add: later_events_def first_uuid_def)
  show ?thesis
    using finished_record_is_kept [OF a b c d e]
    by (simp add: finished_record_def)
qed

subsection \<open>\<open>submit_job\<close>: the id and the first status\<close>









subsection \<open>\<open>get_job_result\<close>: the aggregate\<close>

lemma matches_json_iff: "matches_json n \<longleftrightarrow> (\<exists>s. n = s @ ''.json'')"
proof
  assume m: "matches_json n"
  have d: "drop (length n - 5) n = ''.json''"
    using m by (simp add: matches_json_def)
  have "take (length n - 5) n @ drop (length n - 5) n = n"
    by (rule append_take_drop_id)
  then have e: "n = take (length n - 5) n @ ''.json''"
    by (simp only: d)
  show "\<exists>s. n = s @ ''.json''"
    by (rule exI [where x = "take (length n - 5) n"]) (rule e)
next
  assume "\<exists>s. n = s @ ''.json''"
  then obtain s where n: "n = s @ ''.json''" by (rule exE)
  have "length (s @ ''.json'') - 5 = length s" by simp
  then show "matches_json n" unfolding matches_json_def n by simp
qed

lemma path_stem_json: "s \<noteq> [] \<Longrightarrow> path_stem (s @ ''.json'') = s"
  by (simp add: path_stem_def Let_def)

lemma path_stem_dot_json: "path_stem ''.json'' = ''.json''"
  by (simp add: path_stem_def Let_def)

lemma collect_results_parses:
  "collect_results acc fs = Inr data \<Longrightarrow> (n, f) \<in> set fs \<Longrightarrow> \<exists>v. f = Parses v"
  by (induction acc fs rule: collect_results.induct) (auto split: result_file.splits)

lemma collect_results_total:
  "\<forall>(n, f) \<in> set fs. \<exists>v. f = Parses v \<Longrightarrow> \<exists>data. collect_results acc fs = Inr data"
  by (induction acc fs rule: collect_results.induct) (auto split: result_file.splits)

lemma collect_results_other:
  "collect_results acc fs = Inr data \<Longrightarrow> k \<notin> path_stem ` fst ` set fs \<Longrightarrow>
     map_of data k = map_of acc k"
  by (induction acc fs rule: collect_results.induct)
    (auto simp: update_conv' split: result_file.splits)

lemma collect_results_keys:
  "collect_results acc fs = Inr data \<Longrightarrow>
     dom (map_of data) = dom (map_of acc) \<union> path_stem ` fst ` set fs"
  by (induction acc fs rule: collect_results.induct)
    (auto simp: update_conv' split: result_file.splits if_splits)

lemma collect_results_lookup:
  "collect_results acc fs = Inr data \<Longrightarrow> (n, Parses v) \<in> set fs \<Longrightarrow> distinct (map fst fs) \<Longrightarrow>
     \<forall>(n', f') \<in> set fs. path_stem n' = path_stem n \<longrightarrow> n' = n \<Longrightarrow>
     map_of data (path_stem n) = Some v"
proof (induction acc fs rule: collect_results.induct)
  case (1 acc)
  then show ?case by simp
next
  case (2 acc name f rest)
  from "2.prems"(1) obtain v0 where f: "f = Parses v0"
    and rec: "collect_results (AList.update (path_stem name) v0 acc) rest = Inr data"
    by (auto split: result_file.splits)
  show ?case
  proof (cases "(n, Parses v) \<in> set rest")
    case True
    then show ?thesis using "2.IH" [OF f rec] "2.prems" by auto
  next
    case False
    then have eq: "n = name" "v = v0" using "2.prems"(2) f by auto
    have "path_stem n \<notin> path_stem ` fst ` set rest"
    proof
      assume "path_stem n \<in> path_stem ` fst ` set rest"
      then obtain n' f' where "(n', f') \<in> set rest" "path_stem n' = path_stem n" by force
      then have "n' = n" "n' \<in> fst ` set rest" using "2.prems"(4) by force+
      then show False using "2.prems"(3) eq by auto
    qed
    from collect_results_other [OF rec this] show ?thesis
      using eq by (simp add: update_conv')
  qed
qed

lemma stem_unique:
  assumes "s \<noteq> []" and "s \<noteq> ''.json''" and "matches_json n'"
    and "path_stem n' = path_stem (s @ ''.json'')"
  shows "n' = s @ ''.json''"
proof -
  from assms(3) obtain s' where n': "n' = s' @ ''.json''"
    unfolding matches_json_iff by (rule exE)
  have ps: "path_stem (s @ ''.json'') = s" by (rule path_stem_json [OF assms(1)])
  show ?thesis
  proof (cases "s' = []")
    case True
    then have "path_stem n' = ''.json''" using n' path_stem_dot_json by simp
    then show ?thesis using assms(2,4) ps by simp
  next
    case False
    then have "path_stem n' = s'" unfolding n' by (rule path_stem_json)
    then show ?thesis using assms(4) ps n' by simp
  qed
qed

lemma get_job_result_completed:
  assumes "load_metadata st jid = Inr (JObj kvs)"
    and "map_of kvs ''status'' = Some (JStr (status_value COMPLETED))"
    and "lookup_dir st jid = Some d" and "results d = Results files"
    and "filter (\<lambda>(n, f). matches_json n) files \<noteq> []"
  shows "get_job_result st jid =
     (case collect_results [] (filter (\<lambda>(n, f). matches_json n) files) of
        Inl msg \<Rightarrow> Inr (ErrorResp msg)
      | Inr data \<Rightarrow>
          Inr (ResultResp (path_join (path_join (jobs_path st) jid) ''results'')
                 (map (\<lambda>(n, f). path_join (path_join (path_join (jobs_path st) jid) ''results'') n)
                    (filter (\<lambda>(n, f). matches_json n) files))
                 data))"
proof -
  have "kvs \<noteq> []" using assms(2) by auto
  then show ?thesis using assms by (simp add: get_job_result_def Let_def)
qed

text \<open>
  C7: for a job whose record is \<open>completed\<close>, \<open>get_job_result\<close> answers with an
  error when the results directory is missing and when it holds no \<open>.json\<close> file; when
  one of the \<open>.json\<close> files does not parse the whole call is an error, with no partial
  aggregate; when all of them parse the answer holds the output directory, the paths of
  the files and the data, whose keys are the stems of the file names: the content of
  \<open>s.json\<close> is found under \<open>s\<close> (names being distinct, as in a directory, and
  \<open>s\<close> not being \<open>.json\<close> itself, the stem that the file \<open>.json\<close> also has).
\<close>

theorem result_aggregates_files:
  assumes "load_metadata st jid = Inr (JObj kvs)"
    and "map_of kvs ''status'' = Some (JStr (status_value COMPLETED))"
  shows "\<exists>d. lookup_dir st jid = Some d \<and>
     (results d = NoResults \<longrightarrow>
        get_job_result st jid = Inr (ErrorResp ''Results directory not found'')) \<and>
     (\<forall>files. results d = Results files \<longrightarrow>
        (filter (\<lambda>(n, f). matches_json n) files = [] \<longrightarrow>
           get_job_result st jid = Inr (ErrorResp ''No result files found in output directory'')) \<and>
        ((\<exists>(n, f) \<in> set files. matches_json n \<and> (\<forall>v. f \<noteq> Parses v)) \<longrightarrow>
           (\<exists>msg. get_job_result st jid = Inr (ErrorResp msg))) \<and>
        (filter (\<lambda>(n, f). matches_json n) files \<noteq> [] \<and>
         (\<forall>(n, f) \<in> set files. matches_json n \<longrightarrow> (\<exists>v. f = Parses v)) \<longrightarrow>
           (\<exists>data. get_job_result st jid =
                Inr (ResultResp (path_join (path_join (jobs_path st) jid) ''results'')
                       (map (\<lambda>(n, f). path_join (path_join (path_join (jobs_path st) jid) ''results'') n)
                          (filter (\<lambda>(n, f). matches_json n) files))
                       data) \<and>
              dom (map_of data) = path_stem ` {n. matches_json n \<and> n \<in> fst ` set files} \<and>
              (\<forall>s v. (s @ ''.json'', Parses v) \<in> set files \<and> s \<noteq> [] \<and> s \<noteq> ''.json'' \<and>
                     distinct (map fst files) \<longrightarrow> map_of data s = Some v))))"
proof -
  from assms(1) obtain d where d: "lookup_dir st jid = Some d"
    by (auto simp: load_metadata_def split: option.splits)
  have ne: "kvs \<noteq> []" using assms(2) by auto
  have a: "results d = NoResults \<longrightarrow>
        get_job_result st jid = Inr (ErrorResp ''Results directory not found'')"
    using assms d ne by (simp add: get_job_result_def Let_def)
  have b: "\<forall>files. results d = Results files \<longrightarrow>
        (filter (\<lambda>(n, f). matches_json n) files = [] \<longrightarrow>
           get_job_result st jid = Inr (ErrorResp ''No result files found in output directory'')) \<and>
        ((\<exists>(n, f) \<in> set files. matches_json n \<and> (\<forall>v. f \<noteq> Parses v)) \<longrightarrow>
           (\<exists>msg. get_job_result st jid = Inr (ErrorResp msg))) \<and>
        (filter (\<lambda>(n, f). matches_json n) files \<noteq> [] \<and>
         (\<forall>(n, f) \<in> set files. matches_json n \<longrightarrow> (\<exists>v. f = Parses v)) \<longrightarrow>
           (\<exists>data. get_job_result st jid =
                Inr (ResultResp (path_join (path_join (jobs_path st) jid) ''results'')
                       (map (\<lambda>(n, f). path_join (path_join (path_join (jobs_path st) jid) ''results'') n)
                          (filter (\<lambda>(n, f). matches_json n) files))
                       data) \<and>
              dom (map_of data) = path_stem ` {n. matches_json n \<and> n \<in> fst ` set files} \<and>
              (\<forall>s v. (s @ ''.json'', Parses v) \<in> set files \<and> s \<noteq> [] \<and> s \<noteq> ''.json'' \<and>
                     distinct (map fst files) \<longrightarrow> map_of data s = Some v)))"
  proof (intro allI impI)
    fix files
    assume r: "results d = Results files"
    let ?js = "filter (\<lambda>(n, f). matches_json n) files"
    have b1: "?js = [] \<longrightarrow>
           get_job_result st jid = Inr (ErrorResp ''No result files found in output directory'')"
      using assms d r ne by (simp add: get_job_result_def Let_def)
    have b2: "(\<exists>(n, f) \<in> set files. matches_json n \<and> (\<forall>v. f \<noteq> Parses v)) \<longrightarrow>
           (\<exists>msg. get_job_result st jid = Inr (ErrorResp msg))"
    proof
      assume "\<exists>(n, f) \<in> set files. matches_json n \<and> (\<forall>v. f \<noteq> Parses v)"
      then obtain n f where nf: "(n, f) \<in> set ?js" "\<forall>v. f \<noteq> Parses v" by auto
      have ne: "?js \<noteq> []" using nf(1) by (metis empty_iff empty_set)
      have "\<exists>msg. collect_results [] ?js = Inl msg"
      proof (cases "collect_results [] ?js")
        case (Inl msg)
        then show ?thesis by simp
      next
        case (Inr data)
        from collect_results_parses [OF Inr nf(1)] nf(2) show ?thesis by simp
      qed
      then obtain msg where "collect_results [] ?js = Inl msg" by (rule exE)
      then have "get_job_result st jid = Inr (ErrorResp msg)"
        using get_job_result_completed [OF assms d r ne] by simp
      then show "\<exists>msg. get_job_result st jid = Inr (ErrorResp msg)" by (rule exI)
    qed
    have b3: "?js \<noteq> [] \<and> (\<forall>(n, f) \<in> set files. matches_json n \<longrightarrow> (\<exists>v. f = Parses v)) \<longrightarrow>
           (\<exists>data. get_job_result st jid =
                Inr (ResultResp (path_join (path_join (jobs_path st) jid) ''results'')
                       (map (\<lambda>(n, f). path_join (path_join (path_join (jobs_path st) jid) ''results'') n)
                          ?js)
                       data) \<and>
              dom (map_of data) = path_stem ` {n. matches_json n \<and> n \<in> fst ` set files} \<and>
              (\<forall>s v. (s @ ''.json'', Parses v) \<in> set files \<and> s \<noteq> [] \<and> s \<noteq> ''.json'' \<and>
                     distinct (map fst files) \<longrightarrow> map_of data s = Some v))"
    proof
      assume h: "?js \<noteq> [] \<and> (\<forall>(n, f) \<in> set files. matches_json n \<longrightarrow> (\<exists>v. f = Parses v))"
      then have ne: "?js \<noteq> []" and "\<forall>(n, f) \<in> set ?js. \<exists>v. f = Parses v" by auto
      from collect_results_total [OF this(2), of "[]"] obtain data where
        cr: "collect_results [] ?js = Inr data" by (rule exE)
      have g: "get_job_result st jid =
                Inr (ResultResp (path_join (path_join (jobs_path st) jid) ''results'')
                       (map (\<lambda>(n, f). path_join (path_join (path_join (jobs_path st) jid) ''results'') n)
                          ?js)
                       data)"
        using get_job_result_completed [OF assms d r ne] cr by simp
      have "fst ` set ?js = {n. matches_json n \<and> n \<in> fst ` set files}" by force
      then have k: "dom (map_of data) = path_stem ` {n. matches_json n \<and> n \<in> fst ` set files}"
        using collect_results_keys [OF cr] by simp
      have l: "\<forall>s v. (s @ ''.json'', Parses v) \<in> set files \<and> s \<noteq> [] \<and> s \<noteq> ''.json'' \<and>
                     distinct (map fst files) \<longrightarrow> map_of data s = Some v"
      proof (intro allI impI)
        fix s v
        assume p: "(s @ ''.json'', Parses v) \<in> set files \<and> s \<noteq> [] \<and> s \<noteq> ''.json'' \<and>
                     distinct (map fst files)"
        have mj: "matches_json (s @ ''.json'')"
          unfolding matches_json_iff by (rule exI [where x = s]) (rule refl)
        have i: "(s @ ''.json'', Parses v) \<in> set ?js" using p mj by simp
        have di: "distinct (map fst ?js)" using p by (simp add: distinct_map_filter)
        have u: "\<forall>(n', f') \<in> set ?js. path_stem n' = path_stem (s @ ''.json'') \<longrightarrow> n' = s @ ''.json''"
          using stem_unique [of s] p by auto
        from collect_results_lookup [OF cr i di u] show "map_of data s = Some v"
          using path_stem_json [of s] p by simp
      qed
      show "\<exists>data. get_job_result st jid =
                Inr (ResultResp (path_join (path_join (jobs_path st) jid) ''results'')
                       (map (\<lambda>(n, f). path_join (path_join (path_join (jobs_path st) jid) ''results'') n)
                          ?js)
                       data) \<and>
              dom (map_of data) = path_stem ` {n. matches_json n \<and> n \<in> fst ` set files} \<and>
              (\<forall>s v. (s @ ''.json'', Parses v) \<in> set files \<and> s \<noteq> [] \<and> s \<noteq> ''.json'' \<and>
                     distinct (map fst files) \<longrightarrow> map_of data s = Some v)"
        by (rule exI [where x = data]) (intro conjI g k l)
    qed
    show "(?js = [] \<longrightarrow>
           get_job_result st jid = Inr (ErrorResp ''No result files found in output directory'')) \<and>
        ((\<exists>(n, f) \<in> set files. matches_json n \<and> (\<forall>v. f \<noteq> Parses v)) \<longrightarrow>
           (\<exists>msg. get_job_result st jid = Inr (ErrorResp msg))) \<and>
        (?js \<noteq> [] \<and> (\<forall>(n, f) \<in> set files. matches_json n \<longrightarrow> (\<exists>v. f = Parses v)) \<longrightarrow>
           (\<exists>data. get_job_result st jid =
                Inr (ResultResp (path_join (path_join (jobs_path st) jid) ''results'')
                       (map (\<lambda>(n, f). path_join (path_join (path_join (jobs_path st) jid) ''results'') n)
                          ?js)
                       data) \<and>
              dom (map_of data) = path_stem ` {n. matches_json n \<and> n \<in> fst ` set files} \<and>
              (\<forall>s v. (s @ ''.json'', Parses v) \<in> set files \<and> s \<noteq> [] \<and> s \<noteq> ''.json'' \<and>
                     distinct (map fst files) \<longrightarrow> map_of data s = Some v)))"
      by (intro conjI b1 b2 b3)
  qed
  show ?thesis
    by (rule exI [where x = d]) (intro conjI d a b)
qed

theorem result_aggregates_files_witness:
  "(\<exists>data. get_job_result completed_example ''ab12cd34'' =
       Inr (ResultResp ''/srv/jobs/ab12cd34/results'' [''/srv/jobs/ab12cd34/results/out.json''] data) \<and>
       map_of data ''out'' = Some (JObj [(''x'', JNum 1)])) \<and>
   (\<exists>msg. get_job_result malformed_example ''ab12cd34'' = Inr (ErrorResp msg))"
proof -
  let ?d = "\<lparr>meta = Parsed (JObj (example_record ''completed'')), log = LogLines [],
              results = Results [(''out.json'', Parses (JObj [(''x'', JNum 1)]))]\<rparr>"
  let ?files = "[(''out.json'', Parses (JObj [(''x'', JNum 1)]))]"
  have ld: "load_metadata completed_example ''ab12cd34'' = Inr (JObj (example_record ''completed''))"
    by (simp add: completed_example_def one_job_def empty_manager_def load_metadata_def
        lookup_dir_def)
  have sc: "map_of (example_record ''completed'') ''status'' = Some (JStr (status_value COMPLETED))"
    by (simp add: example_record_def)
  have lk: "lookup_dir completed_example ''ab12cd34'' = Some ?d"
    by (simp add: completed_example_def one_job_def empty_manager_def lookup_dir_def)
  have mj: "matches_json ''out.json''"
    by (simp add: matches_json_def)
  from result_aggregates_files [OF ld sc] obtain d where
    d: "lookup_dir completed_example ''ab12cd34'' = Some d" and
    all: "\<forall>files. results d = Results files \<longrightarrow>
        (filter (\<lambda>(n, f). matches_json n) files = [] \<longrightarrow>
           get_job_result completed_example ''ab12cd34'' =
             Inr (ErrorResp ''No result files found in output directory'')) \<and>
        ((\<exists>(n, f) \<in> set files. matches_json n \<and> (\<forall>v. f \<noteq> Parses v)) \<longrightarrow>
           (\<exists>msg. get_job_result completed_example ''ab12cd34'' = Inr (ErrorResp msg))) \<and>
        (filter (\<lambda>(n, f). matches_json n) files \<noteq> [] \<and>
         (\<forall>(n, f) \<in> set files. matches_json n \<longrightarrow> (\<exists>v. f = Parses v)) \<longrightarrow>
           (\<exists>data. get_job_result completed_example ''ab12cd34'' =
                Inr (ResultResp (path_join (path_join (jobs_path completed_example) ''ab12cd34'') ''results'')
                       (map (\<lambda>(n, f). path_join (path_join (path_join (jobs_path completed_example) ''ab12cd34'') ''results'') n)
                          (filter (\<lambda>(n, f). matches_json n) files))
                       data) \<and>
              dom (map_of data) = path_stem ` {n. matches_json n \<and> n \<in> fst ` set files} \<and>
              (\<forall>s v. (s @ ''.json'', Parses v) \<in> set files \<and> s \<noteq> [] \<and> s \<noteq> ''.json'' \<and>
                     distinct (map fst files) \<longrightarrow> map_of data s = Some v)))"
    by (elim exE conjE)
  have dd: "d = ?d" using d lk by simp
  have rs: "results d = Results ?files" unfolding dd by simp
  have hyp: "filter (\<lambda>(n, f). matches_json n) ?files \<noteq> [] \<and>
         (\<forall>(n, f) \<in> set ?files. matches_json n \<longrightarrow> (\<exists>v. f = Parses v))"
    using mj by simp
  from all [rule_format, OF rs, THEN conjunct2, THEN conjunct2, rule_format, OF hyp]
  obtain data where
    g: "get_job_result completed_example ''ab12cd34'' =
                Inr (ResultResp (path_join (path_join (jobs_path completed_example) ''ab12cd34'') ''results'')
                       (map (\<lambda>(n, f). path_join (path_join (path_join (jobs_path completed_example) ''ab12cd34'') ''results'') n)
                          (filter (\<lambda>(n, f). matches_json n) ?files))
                       data)" and
    l: "\<forall>s v. (s @ ''.json'', Parses v) \<in> set ?files \<and> s \<noteq> [] \<and> s \<noteq> ''.json'' \<and>
                     distinct (map fst ?files) \<longrightarrow> map_of data s = Some v"
    by (elim exE conjE)
  have g': "get_job_result completed_example ''ab12cd34'' =
       Inr (ResultResp ''/srv/jobs/ab12cd34/results'' [''/srv/jobs/ab12cd34/results/out.json''] data)"
    using g mj by (simp add: completed_example_def one_job_def empty_manager_def path_join_def)
  have l': "map_of data ''out'' = Some (JObj [(''x'', JNum 1)])"
    using l [rule_format, of "''out''" "JObj [(''x'', JNum 1)]"] by simp
  have first: "\<exists>data. get_job_result completed_example ''ab12cd34'' =
       Inr (ResultResp ''/srv/jobs/ab12cd34/results'' [''/srv/jobs/ab12cd34/results/out.json''] data) \<and>
       map_of data ''out'' = Some (JObj [(''x'', JNum 1)])"
    by (rule exI [where x = data]) (intro conjI g' l')
  let ?bad = "[(''out.json'', Parses (JObj [(''x'', JNum 1)])),
               (''bad.json'', DecodeError ''Expecting value'')]"
  let ?e = "\<lparr>meta = Parsed (JObj (example_record ''completed'')), log = LogLines [], results = Results ?bad\<rparr>"
  have ld2: "load_metadata malformed_example ''ab12cd34'' = Inr (JObj (example_record ''completed''))"
    by (simp add: malformed_example_def one_job_def empty_manager_def load_metadata_def
        lookup_dir_def)
  have lk2: "lookup_dir malformed_example ''ab12cd34'' = Some ?e"
    by (simp add: malformed_example_def one_job_def empty_manager_def lookup_dir_def)
  from result_aggregates_files [OF ld2 sc] obtain e where
    e: "lookup_dir malformed_example ''ab12cd34'' = Some e" and
    all2: "\<forall>files. results e = Results files \<longrightarrow>
        (filter (\<lambda>(n, f). matches_json n) files = [] \<longrightarrow>
           get_job_result malformed_example ''ab12cd34'' =
             Inr (ErrorResp ''No result files found in output directory'')) \<and>
        ((\<exists>(n, f) \<in> set files. matches_json n \<and> (\<forall>v. f \<noteq> Parses v)) \<longrightarrow>
           (\<exists>msg. get_job_result malformed_example ''ab12cd34'' = Inr (ErrorResp msg)))"
    by (elim exE conjE) blast
  have ee: "e = ?e" using e lk2 by simp
  have rs2: "results e = Results ?bad" unfolding ee by simp
  have hyp2: "\<exists>(n, f) \<in> set ?bad. matches_json n \<and> (\<forall>v. f \<noteq> Parses v)"
    by (simp add: matches_json_def)
  have second: "\<exists>msg. get_job_result malformed_example ''ab12cd34'' = Inr (ErrorResp msg)"
    by (rule all2 [rule_format, OF rs2, THEN conjunct2, rule_format, OF hyp2])
  show ?thesis by (intro conjI first second)
qed

subsection \<open>\<open>get_job_result\<close> and the status\<close>

text \<open>
  C8 as stated fails for store states the loader does not turn into \<open>None\<close>: for a
  \<open>metadata.json\<close> that is not UTF-8 the exception of the read leaves
  \<open>get_job_result\<close>, and for a document without a \<open>status\<close> the item access raises
  \<open>KeyError\<close>; neither call returns an error.
\<close>

theorem result_raises_counterexample:
  "get_job_result undecodable_example ''ab12cd34'' = Inl not_utf8 \<and>
   get_job_result statusless_example ''ab12cd34'' =
     Inl (KeyError (apostrophe @ ''status'' @ apostrophe))"
  by (simp add: get_job_result_def undecodable_example_def statusless_example_def
      load_metadata_def lookup_dir_def one_job_def empty_manager_def empty_dir_def)

text \<open>
  C8, amended: for every job id and every store state in which the record is absent, is
  rejected by the loader (\<open>JSONDecodeError\<close> or \<open>IOError\<close>, which it turns into
  \<open>None\<close>), is an empty document, or is an object with a \<open>status\<close> entry,
  \<open>get_job_result\<close> answers with an error whenever the status is anything other than
  \<open>completed\<close>; and in every store state it answers with a result only when the record
  is an object whose status is \<open>completed\<close>.
\<close>

theorem result_requires_completed:
  "(\<forall>md. load_metadata st jid = Inr md \<and> \<not> truthy md \<longrightarrow>
        get_job_result st jid = Inr (ErrorResp (''Job '' @ jid @ '' not found''))) \<and>
   (\<forall>kvs s. load_metadata st jid = Inr (JObj kvs) \<and> map_of kvs ''status'' = Some s \<and>
        s \<noteq> JStr (status_value COMPLETED) \<longrightarrow>
        get_job_result st jid = Inr (NotCompletedResp s) \<and>
        is_error (NotCompletedResp s)) \<and>
   (\<forall>dir fs data. get_job_result st jid = Inr (ResultResp dir fs data) \<longrightarrow>
        (\<exists>kvs. load_metadata st jid = Inr (JObj kvs) \<and>
               map_of kvs ''status'' = Some (JStr (status_value COMPLETED))))"
proof -
  have a: "\<forall>md. load_metadata st jid = Inr md \<and> \<not> truthy md \<longrightarrow>
        get_job_result st jid = Inr (ErrorResp (''Job '' @ jid @ '' not found''))"
    by (simp add: get_job_result_def)
  have b: "\<forall>kvs s. load_metadata st jid = Inr (JObj kvs) \<and> map_of kvs ''status'' = Some s \<and>
        s \<noteq> JStr (status_value COMPLETED) \<longrightarrow>
        get_job_result st jid = Inr (NotCompletedResp s) \<and>
        is_error (NotCompletedResp s)"
  proof (intro allI impI)
    fix kvs s
    assume h: "load_metadata st jid = Inr (JObj kvs) \<and> map_of kvs ''status'' = Some s \<and>
        s \<noteq> JStr (status_value COMPLETED)"
    then have "kvs \<noteq> []" by auto
    then show "get_job_result st jid = Inr (NotCompletedResp s) \<and> is_error (NotCompletedResp s)"
      using h by (simp add: get_job_result_def)
  qed
  have c: "\<forall>dir fs data. get_job_result st jid = Inr (ResultResp dir fs data) \<longrightarrow>
        (\<exists>kvs. load_metadata st jid = Inr (JObj kvs) \<and>
               map_of kvs ''status'' = Some (JStr (status_value COMPLETED)))"
  proof (intro allI impI)
    fix dir fs data
    assume g: "get_job_result st jid = Inr (ResultResp dir fs data)"
    show "\<exists>kvs. load_metadata st jid = Inr (JObj kvs) \<and>
               map_of kvs ''status'' = Some (JStr (status_value COMPLETED))"
    proof (cases "load_metadata st jid")
      case (Inl e)
      then show ?thesis using g by (simp add: get_job_result_def)
    next
      case (Inr md)
      show ?thesis
      proof (cases md)
        case (JObj kvs)
        then show ?thesis using g Inr
          by (auto simp: get_job_result_def Let_def
              split: if_splits option.splits sum.splits results_dir.splits)
      qed (use g Inr in \<open>auto simp: get_job_result_def split: if_splits\<close>)
    qed
  qed
  show ?thesis by (intro conjI a b c)
qed

theorem result_requires_completed_witness:
  "get_job_result empty_manager ''ab12cd34'' = Inr (ErrorResp ''Job ab12cd34 not found'') \<and>
   get_job_result (one_job (empty_dir\<lparr>meta := Parsed (JObj (example_record ''running''))\<rparr>))
       ''ab12cd34'' = Inr (NotCompletedResp (JStr ''running'')) \<and>
   (\<exists>kvs. load_metadata completed_example ''ab12cd34'' = Inr (JObj kvs) \<and>
          map_of kvs ''status'' = Some (JStr ''completed''))"
proof -
  let ?run = "one_job (empty_dir\<lparr>meta := Parsed (JObj (example_record ''running''))\<rparr>)"
  have a: "load_metadata empty_manager ''ab12cd34'' = Inr JNull \<and> \<not> truthy JNull"
    by (simp add: load_metadata_def lookup_dir_def empty_manager_def)
  have b: "load_metadata ?run ''ab12cd34'' = Inr (JObj (example_record ''running'')) \<and>
       map_of (example_record ''running'') ''status'' = Some (JStr ''running'') \<and>
       JStr ''running'' \<noteq> JStr (status_value COMPLETED)"
    by (simp add: load_metadata_def lookup_dir_def one_job_def empty_manager_def
        example_record_def)
  have c: "get_job_result completed_example ''ab12cd34'' =
      Inr (ResultResp ''/srv/jobs/ab12cd34/results'' [''/srv/jobs/ab12cd34/results/out.json'']
             [(''out'', JObj [(''x'', JNum 1)])])"
    by (simp add: get_job_result_def completed_example_def load_metadata_def lookup_dir_def
        one_job_def empty_manager_def example_record_def path_join_def matches_json_def
        path_stem_def)
  note inst1 = result_requires_completed [of empty_manager "''ab12cd34''"]
  note inst2 = result_requires_completed [of ?run "''ab12cd34''"]
  note inst3 = result_requires_completed [of completed_example "''ab12cd34''"]
  have 1: "get_job_result empty_manager ''ab12cd34'' = Inr (ErrorResp ''Job ab12cd34 not found'')"
    using inst1 [THEN conjunct1, rule_format, OF a] by simp
  have 2: "get_job_result ?run ''ab12cd34'' = Inr (NotCompletedResp (JStr ''running''))"
    using inst2 [THEN conjunct2, THEN conjunct1, rule_format, OF b] by simp
  have 3: "\<exists>kvs. load_metadata completed_example ''ab12cd34'' = Inr (JObj kvs) \<and>
          map_of kvs ''status'' = Some (JStr ''completed'')"
    using inst3 [THEN conjunct2, THEN conjunct2, rule_format, OF c] by simp
  show ?thesis by (intro conjI 1 2 3)
qed

subsection \<open>The listing\<close>

lemma view_of_regular:
  assumes "kvs \<noteq> []" and "regular_record (JObj kvs)"
  shows "view_of (JObj kvs) = Inr (record_view kvs)"
  using assms by (auto simp: view_of_def and_then_def record_view_def dict_get_def)

lemma passes_filter_regular:
  assumes "kvs \<noteq> []" and "regular_record (JObj kvs)"
  shows "passes_filter (JObj kvs) (Some s) = Inr (jv_status (record_view kvs) = JStr s)"
  using assms by (auto simp: passes_filter_def and_then_def record_view_def dict_get_def)

lemma scan_jobs_regular:
  "list_all (regular_entry st) es \<Longrightarrow>
     scan_jobs st None es = Inr (map record_view (List.map_filter (loadable st) es))"
proof (induction es)
  case Nil
  then show ?case by (simp add: map_filter_simps)
next
  case (Cons x es)
  obtain name e where x: "x = (name, e)" by (cases x)
  have ih: "scan_jobs st None es = Inr (map record_view (List.map_filter (loadable st) es))"
    using Cons by simp
  show ?case
  proof (cases e)
    case PlainFile
    then show ?thesis using x ih by (simp add: map_filter_simps)
  next
    case (JobDir d)
    show ?thesis
    proof (cases "load_metadata st name")
      case (Inl ex)
      then show ?thesis using Cons.prems x JobDir by simp
    next
      case (Inr md)
      have reg: "regular_record md" using Cons.prems x JobDir Inr by simp
      show ?thesis
      proof (cases md)
        case (JObj kvs)
        show ?thesis
        proof (cases "kvs = []")
          case True
          then show ?thesis using x JobDir Inr JObj ih
            by (simp add: map_filter_simps and_then_def)
        next
          case False
          then show ?thesis
            using x JobDir Inr JObj ih view_of_regular [OF False] reg
            by (simp add: map_filter_simps and_then_def passes_filter_def)
        qed
      qed (use reg x JobDir Inr ih in \<open>simp_all add: map_filter_simps and_then_def\<close>)
    qed
  qed
qed

lemma scan_jobs_filtered:
  "list_all (regular_entry st) es \<Longrightarrow>
     scan_jobs st (Some s) es =
       Inr (filter (\<lambda>v. jv_status v = JStr s)
              (map record_view (List.map_filter (loadable st) es)))"
proof (induction es)
  case Nil
  then show ?case by (simp add: map_filter_simps)
next
  case (Cons x es)
  obtain name e where x: "x = (name, e)" by (cases x)
  have ih: "scan_jobs st (Some s) es =
      Inr (filter (\<lambda>v. jv_status v = JStr s)
             (map record_view (List.map_filter (loadable st) es)))"
    using Cons by simp
  show ?case
  proof (cases e)
    case PlainFile
    then show ?thesis using x ih by (simp add: map_filter_simps)
  next
    case (JobDir d)
    show ?thesis
    proof (cases "load_metadata st name")
      case (Inl ex)
      then show ?thesis using Cons.prems x JobDir by simp
    next
      case (Inr md)
      have reg: "regular_record md" using Cons.prems x JobDir Inr by simp
      show ?thesis
      proof (cases md)
        case (JObj kvs)
        show ?thesis
        proof (cases "kvs = []")
          case True
          then show ?thesis using x JobDir Inr JObj ih
            by (simp add: map_filter_simps and_then_def)
        next
          case False
          have v: "view_of (JObj kvs) = Inr (record_view kvs)"
            using view_of_regular [OF False] reg JObj by simp
          have p: "passes_filter (JObj kvs) (Some s) =
              Inr (jv_status (record_view kvs) = JStr s)"
            using passes_filter_regular [OF False] reg JObj by simp
          show ?thesis
            using x JobDir Inr JObj ih v p False
            by (simp add: map_filter_simps and_then_def)
        qed
      qed (use reg x JobDir Inr ih in \<open>simp_all add: map_filter_simps and_then_def\<close>)
    qed
  qed
qed

lemma listed_keys_are_strings:
  "list_all (regular_entry st) es \<Longrightarrow>
     list_all (\<lambda>v. is_str (jv_submitted_at v))
       (map record_view (List.map_filter (loadable st) es))"
proof (induction es)
  case Nil
  then show ?case by (simp add: map_filter_simps)
next
  case (Cons x es)
  obtain name e where x: "x = (name, e)" by (cases x)
  show ?case
  proof (cases e)
    case PlainFile
    then show ?thesis using x Cons by (simp add: map_filter_simps)
  next
    case (JobDir d)
    then show ?thesis using x Cons
      by (auto simp: map_filter_simps record_view_def
               split: sum.splits json.splits if_splits)
  qed
qed

lemma sort_reverse_short: "length xs \<le> 1 \<Longrightarrow> sort_reverse k xs = xs"
  by (cases xs) (simp_all add: sort_reverse_def)

lemma sort_jobs_strings:
  "list_all (\<lambda>v. is_str (jv_submitted_at v)) jobs \<Longrightarrow>
     sort_jobs jobs = Inr (sort_reverse (\<lambda>v. str_of (jv_submitted_at v)) jobs)"
  by (simp add: sort_jobs_def sort_reverse_short)

lemma sort_reverse_mset: "mset (sort_reverse k xs) = mset xs"
  by (simp add: sort_reverse_def)

lemma sort_reverse_descending:
  "sorted_wrt (\<lambda>a b. k b \<le> k a) (sort_reverse k xs)"
proof -
  have "sorted (map k (sort_key k (rev xs)))" by (rule sorted_sort_key)
  then have "sorted_wrt (\<lambda>a b. k a \<le> k b) (sort_key k (rev xs))"
    by (simp add: sorted_map)
  then show ?thesis by (simp add: sort_reverse_def sorted_wrt_rev)
qed

lemma sort_reverse_stable:
  "filter (\<lambda>y. k y = c) (sort_reverse k xs) = filter (\<lambda>y. k y = c) xs"
proof -
  have "filter (\<lambda>y. k y = c) (sort_reverse k xs) =
      rev (filter (\<lambda>y. k y = c) (sort_key k (rev xs)))"
    by (simp add: sort_reverse_def rev_filter)
  also have "\<dots> = rev (filter (\<lambda>y. k y = c) (rev xs))"
    by (simp only: sort_key_stable)
  also have "\<dots> = filter (\<lambda>y. k y = c) xs" by (simp add: rev_filter)
  finally show ?thesis .
qed

lemma sort_reverse_filter:
  "filter P (sort_reverse k xs) = sort_reverse k (filter P xs)"
  by (simp add: sort_reverse_def rev_filter [symmetric] filter_sort)

lemma descending_nth:
  assumes "sorted_wrt (\<lambda>a b. k b \<le> k a) xs" and "i < j" and "j < length xs"
  shows "k (xs ! j) \<le> k (xs ! i)"
  using sorted_wrt_nth_less [OF assms] by simp

text \<open>
  C9 as stated fails: a record that fails to load is not always skipped.
  The loader catches \<open>JSONDecodeError\<close> and \<open>IOError\<close> only: a record that is not
  UTF-8 makes \<open>list_jobs\<close> raise \<open>UnicodeDecodeError\<close>, and a record without a
  \<open>status\<close> makes it raise \<open>KeyError\<close>, instead of a list without that job.
\<close>

theorem list_jobs_raises_counterexample:
  "list_jobs undecodable_example None = Inl not_utf8 \<and>
   list_jobs statusless_example None = Inl (KeyError (apostrophe @ ''status'' @ apostrophe)) \<and>
   list_jobs statusless_example (Some ''completed'') =
     Inl (KeyError (apostrophe @ ''status'' @ apostrophe))"
  by (simp add: list_jobs_def undecodable_example_def statusless_example_def one_job_def
      empty_manager_def load_metadata_def lookup_dir_def and_then_def passes_filter_def
      view_of_def empty_dir_def)

text \<open>
  C9, amended: in a store where every job directory either has no record to list (no
  file, a file that is not JSON, an empty document) or has an object with a \<open>job_id\<close>,
  a \<open>status\<close> and a string \<open>submitted_at\<close>, \<open>list_jobs\<close> without a filter returns
  the views of exactly the job directories whose record loads, each once (plain files and
  directories without a loadable record are skipped), ordered by \<open>submitted_at\<close>
  descending, records with the same \<open>submitted_at\<close> in the order of the directory
  listing, with their number as total; with a status filter it returns exactly the sublist
  of those views that have the status, in the same relative order. The strings printed for
  two timestamps are ordered as the timestamps are, so that no job in the list was
  submitted before a job that follows it.
\<close>

theorem list_jobs_sorted_and_filtered:
  assumes "regular_store st"
  shows "\<exists>jobs. list_jobs st None = Inr (ListResp jobs (length jobs)) \<and>
     mset jobs = mset (map record_view (listed_records st)) \<and>
     sorted_wrt (\<lambda>a b. str_of (jv_submitted_at b) \<le> str_of (jv_submitted_at a)) jobs \<and>
     (\<forall>t. filter (\<lambda>v. str_of (jv_submitted_at v) = t) jobs =
          filter (\<lambda>v. str_of (jv_submitted_at v) = t) (map record_view (listed_records st))) \<and>
     (\<forall>s. list_jobs st (Some s) =
          Inr (ListResp (filter (\<lambda>v. jv_status v = JStr s) jobs)
                 (length (filter (\<lambda>v. jv_status v = JStr s) jobs)))) \<and>
     (\<forall>d1 d2. valid_datetime d1 \<and> valid_datetime d2 \<longrightarrow>
          (isoformat d1 < isoformat d2 \<longleftrightarrow> dt_before d1 d2)) \<and>
     (\<forall>i j d1 d2. i < j \<and> j < length jobs \<and> valid_datetime d1 \<and> valid_datetime d2 \<and>
          jv_submitted_at (jobs ! i) = JStr (isoformat d1) \<and>
          jv_submitted_at (jobs ! j) = JStr (isoformat d2) \<longrightarrow>
          \<not> dt_before d1 d2)"
proof -
  let ?key = "\<lambda>v. str_of (jv_submitted_at v)"
  let ?views = "map record_view (listed_records st)"
  let ?jobs = "sort_reverse ?key ?views"
  have reg: "list_all (regular_entry st) (jobs_dir st)"
    using assms by (simp add: regular_store_def)
  have scan: "scan_jobs st None (jobs_dir st) = Inr ?views"
    using scan_jobs_regular [OF reg] by (simp add: listed_records_def)
  have strs: "list_all (\<lambda>v. is_str (jv_submitted_at v)) ?views"
    using listed_keys_are_strings [OF reg] by (simp add: listed_records_def)
  have a: "list_jobs st None = Inr (ListResp ?jobs (length ?jobs))"
    by (simp add: list_jobs_def scan and_then_def sort_jobs_strings [OF strs])
  have b: "mset ?jobs = mset ?views" by (rule sort_reverse_mset)
  have c: "sorted_wrt (\<lambda>a b. ?key b \<le> ?key a) ?jobs" by (rule sort_reverse_descending)
  have c': "\<forall>t. filter (\<lambda>v. ?key v = t) ?jobs = filter (\<lambda>v. ?key v = t) ?views"
    by (simp only: sort_reverse_stable) simp
  have d: "\<forall>s. list_jobs st (Some s) =
          Inr (ListResp (filter (\<lambda>v. jv_status v = JStr s) ?jobs)
                 (length (filter (\<lambda>v. jv_status v = JStr s) ?jobs)))"
  proof
    fix s
    let ?kept = "filter (\<lambda>v. jv_status v = JStr s) ?views"
    have s1: "scan_jobs st (Some s) (jobs_dir st) = Inr ?kept"
      using scan_jobs_filtered [OF reg] by (simp add: listed_records_def)
    have s2: "list_all (\<lambda>v. is_str (jv_submitted_at v)) ?kept"
      using strs by (auto simp: list_all_iff)
    have "list_jobs st (Some s) =
        Inr (ListResp (sort_reverse ?key ?kept) (length (sort_reverse ?key ?kept)))"
      by (simp add: list_jobs_def s1 and_then_def sort_jobs_strings [OF s2])
    then show "list_jobs st (Some s) =
          Inr (ListResp (filter (\<lambda>v. jv_status v = JStr s) ?jobs)
                 (length (filter (\<lambda>v. jv_status v = JStr s) ?jobs)))"
      by (simp only: sort_reverse_filter)
  qed
  have e: "\<forall>d1 d2. valid_datetime d1 \<and> valid_datetime d2 \<longrightarrow>
          (isoformat d1 < isoformat d2 \<longleftrightarrow> dt_before d1 d2)"
    using isoformat_order by blast
  have f: "\<forall>i j d1 d2. i < j \<and> j < length ?jobs \<and> valid_datetime d1 \<and> valid_datetime d2 \<and>
          jv_submitted_at (?jobs ! i) = JStr (isoformat d1) \<and>
          jv_submitted_at (?jobs ! j) = JStr (isoformat d2) \<longrightarrow>
          \<not> dt_before d1 d2"
  proof (intro allI impI)
    fix i j d1 d2
    assume h: "i < j \<and> j < length ?jobs \<and> valid_datetime d1 \<and> valid_datetime d2 \<and>
          jv_submitted_at (?jobs ! i) = JStr (isoformat d1) \<and>
          jv_submitted_at (?jobs ! j) = JStr (isoformat d2)"
    then have "?key (?jobs ! j) \<le> ?key (?jobs ! i)"
      using descending_nth [OF c, of i j] by simp
    then have "\<not> isoformat d1 < isoformat d2" using h by simp
    then show "\<not> dt_before d1 d2" using isoformat_order [of d1 d2] h by blast
  qed
  show ?thesis
    by (rule exI [where x = ?jobs]) (intro conjI a b c c' d e f)
qed

lemma several_jobs_regular: "regular_store several_jobs"
  by (simp add: regular_store_def several_jobs_def empty_manager_def load_metadata_def
      lookup_dir_def empty_dir_def older_record_def newer_record_def dict_get_def)

lemma several_jobs_records: "listed_records several_jobs = [older_record, newer_record]"
  by (simp add: listed_records_def several_jobs_def empty_manager_def load_metadata_def
      lookup_dir_def empty_dir_def map_filter_simps older_record_def newer_record_def)

lemma several_jobs_listed:
  "list_jobs several_jobs None =
     Inr (ListResp [record_view newer_record, record_view older_record] 2)"
  by (simp add: list_jobs_def several_jobs_def empty_manager_def load_metadata_def
      lookup_dir_def and_then_def passes_filter_def view_of_def empty_dir_def sort_jobs_def
      sort_reverse_def record_view_def older_record_def newer_record_def dict_get_def)

theorem list_jobs_sorted_and_filtered_witness:
  "regular_store several_jobs \<and>
   listed_records several_jobs = [older_record, newer_record] \<and>
   list_jobs several_jobs None =
     Inr (ListResp [record_view newer_record, record_view older_record] 2) \<and>
   list_jobs several_jobs (Some ''completed'') = Inr (ListResp [record_view older_record] 1) \<and>
   isoformat (example_time 10) < isoformat (example_time 20) \<and>
   \<not> dt_before (example_time 20) (example_time 10)"
proof -
  from list_jobs_sorted_and_filtered [OF several_jobs_regular] obtain jobs where
    a: "list_jobs several_jobs None = Inr (ListResp jobs (length jobs))" and
    d: "\<forall>s. list_jobs several_jobs (Some s) =
          Inr (ListResp (filter (\<lambda>v. jv_status v = JStr s) jobs)
                 (length (filter (\<lambda>v. jv_status v = JStr s) jobs)))" and
    e: "\<forall>d1 d2. valid_datetime d1 \<and> valid_datetime d2 \<longrightarrow>
          (isoformat d1 < isoformat d2 \<longleftrightarrow> dt_before d1 d2)"
    by blast
  have j: "jobs = [record_view newer_record, record_view older_record]"
    using a several_jobs_listed by simp
  have k: "list_jobs several_jobs (Some ''completed'') = Inr (ListResp [record_view older_record] 1)"
    using d [rule_format, of "''completed''"]
    by (simp add: j record_view_def older_record_def newer_record_def dict_get_def)
  have v: "valid_datetime (example_time 10) \<and> valid_datetime (example_time 20)"
    by (simp add: valid_datetime_def example_time_def)
  have b: "dt_before (example_time 10) (example_time 20)"
    by (simp add: dt_before_def dt_fields_def example_time_def)
  have nb: "\<not> dt_before (example_time 20) (example_time 10)"
    by (simp add: dt_before_def dt_fields_def example_time_def)
  have lt: "isoformat (example_time 10) < isoformat (example_time 20)"
    using e v b by blast
  show ?thesis
    using several_jobs_regular several_jobs_records several_jobs_listed k lt nb by simp
qed

end
